theory Spec2Isabelle
  imports Main
begin

section \<open>Scheduled delivery engine of SlackConnectBackend\<close>

text \<open>
  A shallow embedding of \<^verbatim>\<open>services/scheduler.ts\<close> (class \<^verbatim>\<open>MessageScheduler\<close>),
  \<^verbatim>\<open>services/SlackService.ts\<close> (\<^verbatim>\<open>ensureValidToken\<close>, \<^verbatim>\<open>sendMessage\<close>,
  \<^verbatim>\<open>refreshAccessToken\<close>), the two mongoose schemas and the statistics handler of
  \<^verbatim>\<open>routes/messages.ts\<close>.

  Conventions of the embedding:
  \<^item> a valid instant (\<^verbatim>\<open>Date\<close>) is an \<open>int\<close>, the milliseconds since the epoch; a \<^verbatim>\<open>Date\<close>
    that a caller passes in, or that the code computes, may be the invalid date;
  \<^item> a collection is the list of its documents in insertion order;
  \<^item> an \<^verbatim>\<open>ObjectId\<close> is a natural number, and the driver issues them in turn
    (\<open>next_id\<close>); a string handed to the engine as an id is classified by what mongoose's
    cast makes of it;
  \<^item> a thrown exception is a value \<open>Inl e\<close>; every function that can throw returns its
    result together with the world it leaves behind, since writes made before the throw
    stay;
  \<^item> the environment is a parameter: the answer of the external provider (Slack) to a
    call may depend on the calls made before, which the world logs in \<open>calls\<close>, and so is
    the text of the errors that mongoose and the driver throw;
  \<^item> every reading of the clock (\<^verbatim>\<open>new Date()\<close>, \<^verbatim>\<open>Date.now()\<close>) is a parameter of its own;
  \<^item> the database itself is available: a query or write fails only for the reasons
    written below (cast, schema validation, duplicate key, missing document).
\<close>

subsection \<open>Data model\<close>

datatype status = Pending | Sent | Failed | Cancelled

text \<open>A string used as a document id: mongoose casts it to the \<^verbatim>\<open>ObjectId\<close> it denotes, or
  the cast fails. \<^verbatim>\<open>_id.toString()\<close> is \<open>ObjectIdString\<close> of the id.\<close>

datatype id_string = ObjectIdString nat | OtherString string

text \<open>A JavaScript \<^verbatim>\<open>Date\<close> object.\<close>

datatype js_date = Instant int | InvalidDate

text \<open>\<^verbatim>\<open>new Date(t)\<close> for a number of milliseconds: outside of the range of \<^verbatim>\<open>Date\<close> the
  result is the invalid date, here \<open>None\<close>.\<close>

definition new_Date :: "int \<Rightarrow> int option" where
  "new_Date t =
     (if - 8640000000000000 \<le> t \<and> t \<le> 8640000000000000 then Some t else None)"

text \<open>\<^verbatim>\<open>d <= now\<close> for a \<^verbatim>\<open>Date\<close> \<open>d\<close>: a comparison with the invalid date is false.\<close>

fun date_le :: "js_date \<Rightarrow> int \<Rightarrow> bool" where
  "date_le (Instant t) now = (t \<le> now)"
| "date_le InvalidDate now = False"

text \<open>\<^verbatim>\<open>models/ScheduledMessage.ts\<close>: one document of the collection; \<open>mid\<close> is \<^verbatim>\<open>_id\<close>.\<close>

record scheduled_message =
  mid :: nat
  userId :: string
  teamId :: string
  channelId :: string
  channelName :: string
  message :: string
  scheduledFor :: int
  status :: status
  createdAt :: int
  updatedAt :: int
  sentAt :: "int option"
  error :: "string option"

text \<open>\<^verbatim>\<open>models/SlackUser.ts\<close>: \<open>user_oid\<close> is \<^verbatim>\<open>_id\<close>, \<open>slack_id\<close> is the field \<^verbatim>\<open>id\<close>.\<close>

record slack_user =
  user_oid :: nat
  slack_id :: string
  user_name :: string
  email :: "string option"
  user_teamId :: string
  teamName :: string
  accessToken :: string
  refreshToken :: "string option"
  tokenExpiresAt :: "int option"
  user_createdAt :: int
  user_updatedAt :: int

text \<open>What is thrown: an \<^verbatim>\<open>Error\<close> that the code makes, with its message; a mongoose
  validation error, with the paths that failed in the order of the schema; the error of a
  failed cast to \<^verbatim>\<open>ObjectId\<close>; the error of a save that finds no document; the duplicate-key
  error of the server.\<close>

datatype js_error =
    Error string
  | ValidationError "string list"
  | CastError
  | DocumentNotFoundError
  | DuplicateKeyError

text \<open>The calls made to the provider, oldest first.\<close>

datatype api_call = PostMessage string string string | OAuthRefresh string

text \<open>\<^verbatim>\<open>chat.postMessage\<close> answers with \<^verbatim>\<open>ok\<close> true, with \<^verbatim>\<open>ok\<close> falsy, or the client
  throws.\<close>

datatype post_result = PostOk | PostNotOk | PostThrows

record refresh_response =
  access_token :: string
  refresh_token :: "string option"
  expires_in :: "int option"

text \<open>The environment. \<open>oauth_v2_access\<close> is \<open>None\<close> when the request fails or the answer
  has \<^verbatim>\<open>ok\<close> false. \<open>library_message\<close> is the \<^verbatim>\<open>message\<close> of an error that the code did
  not make itself.\<close>

record environment =
  chat_postMessage :: "api_call list \<Rightarrow> string \<Rightarrow> string \<Rightarrow> string \<Rightarrow> post_result"
  oauth_v2_access :: "api_call list \<Rightarrow> string \<Rightarrow> refresh_response option"
  library_message :: "js_error \<Rightarrow> string"

text \<open>\<^verbatim>\<open>error.message\<close>.\<close>

fun error_message :: "environment \<Rightarrow> js_error \<Rightarrow> string" where
  "error_message E (Error s) = s"
| "error_message E e = library_message E e"

record world =
  messages :: "scheduled_message list"
  users :: "slack_user list"
  calls :: "api_call list"
  next_id :: nat

subsection \<open>The readings of the clock\<close>

text \<open>\<^verbatim>\<open>ensureValidToken\<close> reads the clock for the expiry check (line 187), for the new
  expiry (line 201) and in the pre-save hook of the user.\<close>

record token_clock =
  checked_at :: int
  refreshed_at :: int
  user_saved_at :: int

text \<open>\<^verbatim>\<open>sendScheduledMessage\<close> reads it for \<^verbatim>\<open>sentAt\<close> (line 72), in \<^verbatim>\<open>ensureValidToken\<close> and in
  the pre-save hook of the message.\<close>

record send_clock =
  stamped_at :: int
  token_readings :: token_clock
  saved_at :: int

text \<open>\<^verbatim>\<open>scheduleMessage\<close> reads it for the guard (line 120), for the default of
  \<^verbatim>\<open>createdAt\<close> and in the pre-save hook (the default of \<^verbatim>\<open>updatedAt\<close> is overwritten by
  the hook before anything is stored).\<close>

record schedule_clock =
  guard_at :: int
  created_at :: int
  inserted_at :: int

subsection \<open>The collections\<close>

text \<open>The schema of a scheduled message: five required strings (mongoose's required
  validator rejects the empty string) and \<^verbatim>\<open>maxlength: 4000\<close> on the body.\<close>

definition message_path_errors ::
  "string \<Rightarrow> string \<Rightarrow> string \<Rightarrow> string \<Rightarrow> string \<Rightarrow> string list" where
  "message_path_errors uid tid cid cname msg =
     (if uid = [] then [''userId''] else [])
   @ (if tid = [] then [''teamId''] else [])
   @ (if cid = [] then [''channelId''] else [])
   @ (if cname = [] then [''channelName''] else [])
   @ (if msg = [] \<or> 4000 < length msg then [''message''] else [])"

text \<open>\<open>None\<close> when the document passes.\<close>

definition validate_message :: "scheduled_message \<Rightarrow> js_error option" where
  "validate_message m =
     (let bad = message_path_errors (userId m) (teamId m) (channelId m) (channelName m)
                  (message m)
      in if bad = [] then None else Some (ValidationError bad))"

definition user_path_errors :: "slack_user \<Rightarrow> string list" where
  "user_path_errors u =
     (if slack_id u = [] then [''id''] else [])
   @ (if user_name u = [] then [''name''] else [])
   @ (if user_teamId u = [] then [''teamId''] else [])
   @ (if teamName u = [] then [''teamName''] else [])
   @ (if accessToken u = [] then [''accessToken''] else [])"

text \<open>\<open>cast_failed\<close> are the paths that were assigned a value mongoose could not cast (an
  invalid date): they fail the validation too.\<close>

definition validate_user :: "slack_user \<Rightarrow> string list \<Rightarrow> js_error option" where
  "validate_user u cast_failed =
     (let bad = user_path_errors u @ cast_failed
      in if bad = [] then None else Some (ValidationError bad))"

text \<open>The document with an \<^verbatim>\<open>ObjectId\<close>, and \<^verbatim>\<open>findById\<close> of a string.\<close>

definition byId :: "scheduled_message list \<Rightarrow> nat \<Rightarrow> scheduled_message option" where
  "byId ms k = find (\<lambda>m. mid m = k) ms"

fun findById :: "scheduled_message list \<Rightarrow> id_string \<Rightarrow> js_error + scheduled_message option" where
  "findById ms (ObjectIdString k) = Inr (byId ms k)"
| "findById ms (OtherString s) = Inl CastError"

text \<open>\<^verbatim>\<open>updateOne({_id: ...})\<close>: the first document with the id is replaced.\<close>

fun update_doc :: "scheduled_message \<Rightarrow> scheduled_message list \<Rightarrow> scheduled_message list" where
  "update_doc m [] = []"
| "update_doc m (x # xs) = (if mid x = mid m then m # xs else x # update_doc m xs)"

fun update_user :: "slack_user \<Rightarrow> slack_user list \<Rightarrow> slack_user list" where
  "update_user u [] = []"
| "update_user u (x # xs) = (if user_oid x = user_oid u then u # xs else x # update_user u xs)"

text \<open>\<^verbatim>\<open>save()\<close> of a document made with \<^verbatim>\<open>new ScheduledMessageModel(...)\<close>: the pre-save hook
  stamps \<^verbatim>\<open>updatedAt\<close>, the schema is validated, the document is inserted; the unique
  index on \<^verbatim>\<open>_id\<close> rejects a duplicate.\<close>

definition save_new_message :: "world \<Rightarrow> scheduled_message \<Rightarrow> int \<Rightarrow> js_error + world" where
  "save_new_message w m now =
     (let m' = m\<lparr>updatedAt := now\<rparr> in
      case validate_message m' of
        Some e \<Rightarrow> Inl e
      | None \<Rightarrow>
          if mid m' \<in> set (map mid (messages w))
          then Inl DuplicateKeyError
          else Inr (w\<lparr>messages := messages w @ [m']\<rparr>))"

text \<open>\<^verbatim>\<open>save()\<close> of a document that was loaded from the collection.\<close>

definition save_message :: "world \<Rightarrow> scheduled_message \<Rightarrow> int \<Rightarrow> js_error + world" where
  "save_message w m now =
     (let m' = m\<lparr>updatedAt := now\<rparr> in
      case validate_message m' of
        Some e \<Rightarrow> Inl e
      | None \<Rightarrow>
          if mid m' \<in> set (map mid (messages w))
          then Inr (w\<lparr>messages := update_doc m' (messages w)\<rparr>)
          else Inl DocumentNotFoundError)"

definition save_user :: "world \<Rightarrow> slack_user \<Rightarrow> string list \<Rightarrow> int \<Rightarrow> js_error + world" where
  "save_user w u cast_failed now =
     (let u' = u\<lparr>user_updatedAt := now\<rparr> in
      case validate_user u' cast_failed of
        Some e \<Rightarrow> Inl e
      | None \<Rightarrow>
          if user_oid u' \<in> set (map user_oid (users w))
          then Inr (w\<lparr>users := update_user u' (users w)\<rparr>)
          else Inl DocumentNotFoundError)"

subsection \<open>SlackService\<close>

text \<open>\<^verbatim>\<open>refreshAccessToken\<close>: every failure is rethrown as one error.\<close>

definition refreshAccessToken ::
  "environment \<Rightarrow> world \<Rightarrow> string \<Rightarrow> (js_error + refresh_response) \<times> world" where
  "refreshAccessToken E w rt =
     (let w' = w\<lparr>calls := calls w @ [OAuthRefresh rt]\<rparr> in
      case oauth_v2_access E (calls w) rt of
        None \<Rightarrow> (Inl (Error ''Failed to refresh access token''), w')
      | Some r \<Rightarrow> (Inr r, w'))"

text \<open>\<^verbatim>\<open>sendMessage\<close>: \<^verbatim>\<open>result.ok || false\<close>, or the rethrown error.\<close>

definition sendMessage ::
  "environment \<Rightarrow> world \<Rightarrow> string \<Rightarrow> string \<Rightarrow> string \<Rightarrow> (js_error + bool) \<times> world" where
  "sendMessage E w tok ch txt =
     (let w' = w\<lparr>calls := calls w @ [PostMessage tok ch txt]\<rparr> in
      case chat_postMessage E (calls w) tok ch txt of
        PostOk \<Rightarrow> (Inr True, w')
      | PostNotOk \<Rightarrow> (Inr False, w')
      | PostThrows \<Rightarrow> (Inl (Error ''Failed to send message''), w'))"

text \<open>JavaScript truthiness of an optional string and of an optional number.\<close>

fun truthy_string :: "string option \<Rightarrow> bool" where
  "truthy_string None = False"
| "truthy_string (Some s) = (s \<noteq> [])"

fun truthy_number :: "int option \<Rightarrow> bool" where
  "truthy_number None = False"
| "truthy_number (Some n) = (n \<noteq> 0)"

text \<open>\<^verbatim>\<open>user.tokenExpiresAt && user.tokenExpiresAt <= new Date()\<close>.\<close>

fun token_expired :: "int option \<Rightarrow> int \<Rightarrow> bool" where
  "token_expired None now = False"
| "token_expired (Some t) now = (t \<le> now)"

text \<open>Lines 196 to 202: the answer of the provider is assigned to the loaded user. The
  result is the user and the paths whose new value is not a valid date.\<close>

definition apply_refresh ::
  "slack_user \<Rightarrow> refresh_response \<Rightarrow> int \<Rightarrow> slack_user \<times> string list" where
  "apply_refresh user r now =
     (let u1 = user\<lparr>accessToken := access_token r\<rparr>;
          u2 = (if truthy_string (refresh_token r)
                then u1\<lparr>refreshToken := refresh_token r\<rparr> else u1)
      in if truthy_number (expires_in r) then
           (case new_Date (now + the (expires_in r) * 1000) of
              Some d \<Rightarrow> (u2\<lparr>tokenExpiresAt := Some d\<rparr>, [])
            | None \<Rightarrow> (u2, [''tokenExpiresAt'']))
         else (u2, []))"

definition ensureValidToken ::
  "environment \<Rightarrow> world \<Rightarrow> string \<Rightarrow> token_clock \<Rightarrow> (js_error + string) \<times> world" where
  "ensureValidToken E w uid clock =
     (case find (\<lambda>u. slack_id u = uid) (users w) of
        None \<Rightarrow> (Inl (Error ''User not found''), w)
      | Some user \<Rightarrow>
          if token_expired (tokenExpiresAt user) (checked_at clock) then
            if \<not> truthy_string (refreshToken user)
            then (Inl (Error ''Token expired and no refresh token available''), w)
            else
              (case refreshAccessToken E w (the (refreshToken user)) of
                 (Inl e, w1) \<Rightarrow> (Inl e, w1)
               | (Inr r, w1) \<Rightarrow>
                   (case apply_refresh user r (refreshed_at clock) of
                      (u3, cast_failed) \<Rightarrow>
                        (case save_user w1 u3 cast_failed (user_saved_at clock) of
                           Inl e \<Rightarrow> (Inl e, w1)
                         | Inr w2 \<Rightarrow> (Inr (access_token r), w2))))
          else (Inr (accessToken user), w))"

subsection \<open>MessageScheduler\<close>

text \<open>\<^verbatim>\<open>sendScheduledMessage\<close>, lines 64 to 72: the document is read and, when it is pending,
  its status and \<^verbatim>\<open>sentAt\<close> are assigned on the loaded object. Nothing is written to the
  collection here: the result is the object in memory. When the cast of the id throws, the
  outer \<^verbatim>\<open>catch\<close> logs and the call returns.\<close>

definition ssm_load :: "world \<Rightarrow> id_string \<Rightarrow> int \<Rightarrow> scheduled_message option" where
  "ssm_load w messageId now =
     (case findById (messages w) messageId of
        Inl e \<Rightarrow> None
      | Inr None \<Rightarrow> None
      | Inr (Some m) \<Rightarrow>
          if status m \<noteq> Pending then None
          else Some (m\<lparr>status := Sent, sentAt := Some now\<rparr>))"

text \<open>The inner \<^verbatim>\<open>catch\<close>, lines 94 to 101: the object is marked failed and saved; when that
  save throws, the outer \<^verbatim>\<open>catch\<close> logs and the collection stays as it was.\<close>

definition mark_failed ::
  "environment \<Rightarrow> world \<Rightarrow> scheduled_message \<Rightarrow> js_error \<Rightarrow> int \<Rightarrow> world" where
  "mark_failed E w m e now =
     (case save_message w (m\<lparr>status := Failed, error := Some (error_message E e)\<rparr>) now of
        Inl _ \<Rightarrow> w
      | Inr w' \<Rightarrow> w')"

text \<open>The inner \<^verbatim>\<open>try\<close>, lines 74 to 93, with its \<^verbatim>\<open>catch\<close>. When the save of line 89
  throws, the save of line 98 throws for the same reason and nothing is written, so the
  reading of the clock in its hook is never seen and \<open>saved_at\<close> stands for both.\<close>

definition ssm_deliver ::
  "environment \<Rightarrow> world \<Rightarrow> scheduled_message \<Rightarrow> send_clock \<Rightarrow> world" where
  "ssm_deliver E w m clock =
     (case ensureValidToken E w (userId m) (token_readings clock) of
        (Inl e, w1) \<Rightarrow> mark_failed E w1 m e (saved_at clock)
      | (Inr tok, w1) \<Rightarrow>
          (case sendMessage E w1 tok (channelId m) (message m) of
             (Inl e, w2) \<Rightarrow> mark_failed E w2 m e (saved_at clock)
           | (Inr success, w2) \<Rightarrow>
               if success then
                 (case save_message w2 m (saved_at clock) of
                    Inl e \<Rightarrow> mark_failed E w2 m e (saved_at clock)
                  | Inr w3 \<Rightarrow> w3)
               else mark_failed E w2 m (Error ''Failed to send message to Slack'')
                      (saved_at clock)))"

definition sendScheduledMessage ::
  "environment \<Rightarrow> world \<Rightarrow> id_string \<Rightarrow> send_clock \<Rightarrow> world" where
  "sendScheduledMessage E w messageId clock =
     (case ssm_load w messageId (stamped_at clock) of
        None \<Rightarrow> w
      | Some m \<Rightarrow> ssm_deliver E w m clock)"

text \<open>\<^verbatim>\<open>find({scheduledFor: {$lte: now}, status: 'pending'}).sort({scheduledFor: 1})\<close>; the
  order of documents with equal keys is that of the collection.\<close>

definition dueMessages :: "world \<Rightarrow> int \<Rightarrow> scheduled_message list" where
  "dueMessages w now =
     sort_key scheduledFor (filter (\<lambda>m. scheduledFor m \<le> now \<and> status m = Pending) (messages w))"

text \<open>\<^verbatim>\<open>processScheduledMessages\<close>: \<open>now\<close> is the reading of line 37, \<open>clocks\<close> gives the
  readings made while the message with a given id is processed.\<close>

definition processScheduledMessages ::
  "environment \<Rightarrow> world \<Rightarrow> int \<Rightarrow> (nat \<Rightarrow> send_clock) \<Rightarrow> world" where
  "processScheduledMessages E w now clocks =
     (let due = dueMessages w now in
      if length due = 0 then w
      else foldl (\<lambda>w' m. sendScheduledMessage E w' (ObjectIdString (mid m)) (clocks (mid m)))
             w due)"

text \<open>\<^verbatim>\<open>new ScheduledMessageModel({...})\<close> with the defaults of the schema; \<open>oid\<close> is the
  \<^verbatim>\<open>_id\<close> that the driver gives the new document.\<close>

definition newScheduledMessage ::
  "nat \<Rightarrow> int \<Rightarrow> string \<Rightarrow> string \<Rightarrow> string \<Rightarrow> string \<Rightarrow> string \<Rightarrow> int \<Rightarrow> scheduled_message" where
  "newScheduledMessage oid now uid tid cid cname msg sfor =
     \<lparr>mid = oid, userId = uid, teamId = tid, channelId = cid, channelName = cname,
      message = msg, scheduledFor = sfor, status = Pending, createdAt = now,
      updatedAt = now, sentAt = None, error = None\<rparr>"

text \<open>\<^verbatim>\<open>scheduleMessage\<close>. The guard lets the invalid date through; mongoose then fails to
  cast it and the save throws the validation error. The driver issues the \<^verbatim>\<open>_id\<close> when the
  document is made.\<close>

definition scheduleMessage ::
  "world \<Rightarrow> schedule_clock \<Rightarrow> string \<Rightarrow> string \<Rightarrow> string \<Rightarrow> string \<Rightarrow> string \<Rightarrow> js_date
     \<Rightarrow> (js_error + id_string) \<times> world" where
  "scheduleMessage w clock uid tid cid cname msg sfor =
     (if date_le sfor (guard_at clock)
      then (Inl (Error ''Scheduled time must be in the future''), w)
      else
        (let w0 = w\<lparr>next_id := Suc (next_id w)\<rparr> in
         case sfor of
           InvalidDate \<Rightarrow>
             (Inl (ValidationError (message_path_errors uid tid cid cname msg @ [''scheduledFor''])),
              w0)
         | Instant t \<Rightarrow>
             (let scheduledMessage =
                    newScheduledMessage (next_id w) (created_at clock) uid tid cid cname msg t
              in case save_new_message w0 scheduledMessage (inserted_at clock) of
                   Inl e \<Rightarrow> (Inl e, w0)
                 | Inr w' \<Rightarrow> (Inr (ObjectIdString (mid scheduledMessage)), w'))))"

text \<open>\<^verbatim>\<open>cancelScheduledMessage\<close>: whatever is thrown is logged and thrown again.\<close>

definition cancelScheduledMessage ::
  "world \<Rightarrow> id_string \<Rightarrow> string \<Rightarrow> int \<Rightarrow> (js_error + bool) \<times> world" where
  "cancelScheduledMessage w messageId uid now =
     (case messageId of
        OtherString s \<Rightarrow> (Inl CastError, w)
      | ObjectIdString k \<Rightarrow>
          (case find (\<lambda>m. mid m = k \<and> userId m = uid \<and> status m = Pending) (messages w) of
             None \<Rightarrow> (Inr False, w)
           | Some m \<Rightarrow>
               (case save_message w (m\<lparr>status := Cancelled\<rparr>) now of
                  Inl e \<Rightarrow> (Inl e, w)
                | Inr w' \<Rightarrow> (Inr True, w'))))"

text \<open>What \<^verbatim>\<open>getUserScheduledMessages\<close> returns for each document.\<close>

record message_view =
  view_id :: id_string
  view_channelId :: string
  view_channelName :: string
  view_message :: string
  view_scheduledFor :: int
  view_status :: status
  view_createdAt :: int
  view_sentAt :: "int option"
  view_error :: "string option"

definition to_view :: "scheduled_message \<Rightarrow> message_view" where
  "to_view msg =
     \<lparr>view_id = ObjectIdString (mid msg), view_channelId = channelId msg,
      view_channelName = channelName msg, view_message = message msg,
      view_scheduledFor = scheduledFor msg, view_status = status msg,
      view_createdAt = createdAt msg, view_sentAt = sentAt msg, view_error = error msg\<rparr>"

text \<open>\<^verbatim>\<open>find({userId, status: {$in: ['pending', 'sent', 'failed']}}).sort({scheduledFor: -1})\<close>.\<close>

definition getUserScheduledMessages :: "world \<Rightarrow> string \<Rightarrow> message_view list" where
  "getUserScheduledMessages w uid =
     map to_view
       (sort_key (\<lambda>m. - scheduledFor m)
          (filter (\<lambda>m. userId m = uid \<and> status m \<in> set [Pending, Sent, Failed]) (messages w)))"

subsection \<open>The statistics handler\<close>

record stats =
  total :: nat
  pending :: nat
  sent :: nat
  failed :: nat
  cancelled :: nat

definition messages_stats :: "world \<Rightarrow> string \<Rightarrow> stats" where
  "messages_stats w uid =
     (let msgs = getUserScheduledMessages w uid in
      \<lparr>total = length msgs,
       pending = length (filter (\<lambda>msg. view_status msg = Pending) msgs),
       sent = length (filter (\<lambda>msg. view_status msg = Sent) msgs),
       failed = length (filter (\<lambda>msg. view_status msg = Failed) msgs),
       cancelled = length (filter (\<lambda>msg. view_status msg = Cancelled) msgs)\<rparr>)"

subsection \<open>Sequences of engine operations\<close>

datatype engine_op =
    Schedule schedule_clock string string string string string js_date
  | Cancel int id_string string
  | SendNow send_clock id_string
  | PollerTick int "nat \<Rightarrow> send_clock"

fun apply_op :: "environment \<Rightarrow> world \<Rightarrow> engine_op \<Rightarrow> world" where
  "apply_op E w (Schedule clock uid tid cid cname msg sfor) =
     snd (scheduleMessage w clock uid tid cid cname msg sfor)"
| "apply_op E w (Cancel now i uid) = snd (cancelScheduledMessage w i uid now)"
| "apply_op E w (SendNow clock i) = sendScheduledMessage E w i clock"
| "apply_op E w (PollerTick now clocks) = processScheduledMessages E w now clocks"

definition run :: "environment \<Rightarrow> world \<Rightarrow> engine_op list \<Rightarrow> world" where
  "run E w ops = foldl (apply_op E) w ops"

text \<open>The invariant of the message collection that the database and the schema keep: ids
  are unique and every stored document passes the schema.\<close>

definition store_ok :: "world \<Rightarrow> bool" where
  "store_ok w =
     (distinct (map mid (messages w)) \<and> list_all (\<lambda>m. validate_message m = None) (messages w))"

text \<open>The invariant of the driver: every stored id is one that was issued.\<close>

definition ids_issued :: "world \<Rightarrow> bool" where
  "ids_issued w = list_all (\<lambda>m. mid m < next_id w) (messages w)"

definition status_of :: "world \<Rightarrow> nat \<Rightarrow> status option" where
  "status_of w k = map_option status (byId (messages w) k)"



text \<open>The number of \<^verbatim>\<open>chat.postMessage\<close> calls made so far.\<close>

fun is_post :: "api_call \<Rightarrow> bool" where
  "is_post (PostMessage _ _ _) = True"
| "is_post (OAuthRefresh _) = False"

definition post_count :: "world \<Rightarrow> nat" where
  "post_count w = length (filter is_post (calls w))"

text \<open>What does hold of \<^verbatim>\<open>sentAt\<close>: a sent record has it, a pending or cancelled record
  does not; nothing is said of a failed record.\<close>

fun sentAt_consistent :: "scheduled_message \<Rightarrow> bool" where
  "sentAt_consistent m =
     (case status m of
        Sent \<Rightarrow> sentAt m \<noteq> None
      | Failed \<Rightarrow> True
      | _ \<Rightarrow> sentAt m = None)"

subsection \<open>Concrete inputs\<close>

definition ada :: slack_user where
  "ada = \<lparr>user_oid = 500, slack_id = ''U1'', user_name = ''Ada'', email = None,
          user_teamId = ''T1'', teamName = ''Engines'', accessToken = ''xoxb-1'',
          refreshToken = None, tokenExpiresAt = None, user_createdAt = 0, user_updatedAt = 0\<rparr>"

definition memo :: "nat \<Rightarrow> status \<Rightarrow> int \<Rightarrow> scheduled_message" where
  "memo k st due =
     \<lparr>mid = k, userId = ''U1'', teamId = ''T1'', channelId = ''C123'', channelName = ''general'',
      message = ''hello'', scheduledFor = due, status = st, createdAt = 0, updatedAt = 0,
      sentAt = (if st = Sent then Some due else None),
      error = (if st = Failed then Some ''Failed to send message'' else None)\<rparr>"

text \<open>Readings of the clock one millisecond apart, from \<open>t\<close> on.\<close>

definition token_from :: "int \<Rightarrow> token_clock" where
  "token_from t = \<lparr>checked_at = t, refreshed_at = t + 1, user_saved_at = t + 2\<rparr>"

definition send_from :: "int \<Rightarrow> send_clock" where
  "send_from t = \<lparr>stamped_at = t, token_readings = token_from (t + 1), saved_at = t + 4\<rparr>"

definition schedule_from :: "int \<Rightarrow> schedule_clock" where
  "schedule_from t = \<lparr>guard_at = t, created_at = t + 1, inserted_at = t + 2\<rparr>"

text \<open>A provider that accepts every message, one that is unreachable, one that rotates
  tokens, one that answers a refresh without a token and one that answers it with an
  expiry beyond the range of \<^verbatim>\<open>Date\<close>.\<close>

definition slack_up :: environment where
  "slack_up = \<lparr>chat_postMessage = (\<lambda>_ _ _ _. PostOk), oauth_v2_access = (\<lambda>_ _. None),
               library_message = (\<lambda>_. ''mongoose'')\<rparr>"

definition slack_down :: environment where
  "slack_down = \<lparr>chat_postMessage = (\<lambda>_ _ _ _. PostThrows), oauth_v2_access = (\<lambda>_ _. None),
                 library_message = (\<lambda>_. ''mongoose'')\<rparr>"

definition slack_rotating :: environment where
  "slack_rotating =
     \<lparr>chat_postMessage = (\<lambda>_ _ _ _. PostOk),
      oauth_v2_access = (\<lambda>_ _. Some \<lparr>access_token = ''xoxb-2'', refresh_token = Some ''r-2'',
                                      expires_in = Some 3600\<rparr>),
      library_message = (\<lambda>_. ''mongoose'')\<rparr>"

definition slack_blank :: environment where
  "slack_blank =
     \<lparr>chat_postMessage = (\<lambda>_ _ _ _. PostOk),
      oauth_v2_access = (\<lambda>_ _. Some \<lparr>access_token = [], refresh_token = None,
                                      expires_in = None\<rparr>),
      library_message = (\<lambda>_. ''mongoose'')\<rparr>"

definition slack_forever :: environment where
  "slack_forever =
     \<lparr>chat_postMessage = (\<lambda>_ _ _ _. PostOk),
      oauth_v2_access = (\<lambda>_ _. Some \<lparr>access_token = ''xoxb-2'', refresh_token = None,
                                      expires_in = Some 8640000000000\<rparr>),
      library_message = (\<lambda>_. ''mongoose'')\<rparr>"

definition one_pending :: world where
  "one_pending = \<lparr>messages = [memo 11 Pending 10], users = [ada], calls = [], next_id = 12\<rparr>"

definition no_credential :: world where
  "no_credential = \<lparr>messages = [memo 11 Pending 10], users = [], calls = [], next_id = 12\<rparr>"

definition two_due :: world where
  "two_due =
     \<lparr>messages = [(memo 11 Pending 10)\<lparr>userId := ''U9''\<rparr>, memo 12 Pending 20],
      users = [ada], calls = [], next_id = 13\<rparr>"

definition seven_records :: world where
  "seven_records =
     \<lparr>messages = [memo 11 Pending 10, memo 12 Pending 20, memo 13 Pending 30,
                  memo 14 Sent 40, memo 15 Sent 50, memo 16 Failed 60,
                  memo 17 Cancelled 70],
      users = [ada], calls = [], next_id = 18\<rparr>"

definition expired_ada :: world where
  "expired_ada =
     \<lparr>messages = [],
      users = [ada\<lparr>refreshToken := Some ''r-1'', tokenExpiresAt := Some 50\<rparr>],
      calls = [], next_id = 0\<rparr>"

definition expired_no_refresh :: world where
  "expired_no_refresh =
     \<lparr>messages = [], users = [ada\<lparr>tokenExpiresAt := Some 50\<rparr>], calls = [], next_id = 0\<rparr>"

definition expired_unnamed_team :: world where
  "expired_unnamed_team =
     \<lparr>messages = [],
      users = [ada\<lparr>teamName := [], refreshToken := Some ''r-1'', tokenExpiresAt := Some 50\<rparr>],
      calls = [], next_id = 0\<rparr>"


lemmas demo_defs = one_pending_def two_due_def seven_records_def expired_ada_def memo_def ada_def
  slack_up_def slack_down_def slack_rotating_def slack_blank_def slack_forever_def
  no_credential_def expired_no_refresh_def expired_unnamed_team_def token_from_def
  send_from_def schedule_from_def

lemmas engine_defs = sendScheduledMessage_def ssm_load_def ssm_deliver_def mark_failed_def
  save_message_def validate_message_def message_path_errors_def byId_def ensureValidToken_def
  sendMessage_def refreshAccessToken_def apply_refresh_def new_Date_def save_user_def
  validate_user_def user_path_errors_def status_of_def post_count_def
  processScheduledMessages_def dueMessages_def

section \<open>Facts about the collections\<close>

lemma validate_message_upd [simp]:
  "validate_message (m\<lparr>updatedAt := t\<rparr>) = validate_message m"
  "validate_message (m\<lparr>status := s\<rparr>) = validate_message m"
  "validate_message (m\<lparr>sentAt := a\<rparr>) = validate_message m"
  "validate_message (m\<lparr>error := e\<rparr>) = validate_message m"
  by (simp_all add: validate_message_def)

lemma map_mid_update_doc [simp]: "map mid (update_doc m xs) = map mid xs"
  by (induction xs) auto

lemma byId_update_doc:
  "byId (update_doc m xs) k =
     (if k = mid m \<and> mid m \<in> set (map mid xs) then Some m else byId xs k)"
  by (induction xs) (auto simp: byId_def)

lemma set_update_doc: "set (update_doc m xs) \<subseteq> insert m (set xs)"
  by (induction xs) auto

lemma byId_append:
  "byId (xs @ [m]) k =
     (case byId xs k of Some x \<Rightarrow> Some x | None \<Rightarrow> if mid m = k then Some m else None)"
  by (induction xs) (auto simp: byId_def)

lemma byId_None_iff: "byId xs k = None \<longleftrightarrow> k \<notin> set (map mid xs)"
  by (induction xs) (auto simp: byId_def)

lemma byId_Some: "byId xs k = Some m \<Longrightarrow> m \<in> set xs \<and> mid m = k"
  by (induction xs) (auto simp: byId_def split: if_splits)

lemma save_message_ok:
  "validate_message m = None \<Longrightarrow> mid m \<in> set (map mid (messages w)) \<Longrightarrow>
   save_message w m now = Inr (w\<lparr>messages := update_doc (m\<lparr>updatedAt := now\<rparr>) (messages w)\<rparr>)"
  by (simp add: save_message_def)

lemma mark_failed_ok:
  "validate_message m = None \<Longrightarrow> mid m \<in> set (map mid (messages w)) \<Longrightarrow>
   mark_failed E w m e now =
     w\<lparr>messages := update_doc (m\<lparr>status := Failed, error := Some (error_message E e), updatedAt := now\<rparr>) (messages w)\<rparr>"
  by (simp add: mark_failed_def save_message_def)

section \<open>What the token check and the send leave untouched\<close>

lemma save_user_messages:
  "save_user w u cf now = Inr w' \<Longrightarrow>
   messages w' = messages w \<and> calls w' = calls w \<and> next_id w' = next_id w"
  by (auto simp: save_user_def Let_def split: option.splits if_splits)

lemma ensureValidToken_messages:
  "ensureValidToken E w uid clock = (r, w1) \<Longrightarrow> messages w1 = messages w"
  by (auto simp: ensureValidToken_def refreshAccessToken_def Let_def
      split: option.splits if_splits sum.splits prod.splits dest: save_user_messages)

lemma ensureValidToken_next_id:
  "ensureValidToken E w uid clock = (r, w1) \<Longrightarrow> next_id w1 = next_id w"
  by (auto simp: ensureValidToken_def refreshAccessToken_def Let_def
      split: option.splits if_splits sum.splits prod.splits dest: save_user_messages)

lemma sendMessage_messages:
  "sendMessage E w tok ch txt = (r, w1) \<Longrightarrow> messages w1 = messages w \<and> next_id w1 = next_id w"
  by (auto simp: sendMessage_def Let_def split: post_result.splits)

section \<open>One call of sendScheduledMessage\<close>

lemma ssm_deliver_messages:
  assumes "validate_message m = None" and "mid m \<in> set (map mid (messages w))"
  shows "messages (ssm_deliver E w m clock) =
           update_doc (m\<lparr>updatedAt := saved_at clock\<rparr>) (messages w)
       \<or> (\<exists>e. messages (ssm_deliver E w m clock) =
              update_doc (m\<lparr>status := Failed, error := Some e, updatedAt := saved_at clock\<rparr>)
                (messages w))"
proof -
  obtain r w1 where e: "ensureValidToken E w (userId m) (token_readings clock) = (r, w1)"
    by fastforce
  then have m1: "messages w1 = messages w"
    by (rule ensureValidToken_messages)
  show ?thesis
  proof (cases r)
    case (Inl err)
    with e m1 assms show ?thesis
      by (auto simp add: ssm_deliver_def mark_failed_ok)
  next
    case (Inr tok)
    obtain r2 w2 where s: "sendMessage E w1 tok (channelId m) (message m) = (r2, w2)"
      by fastforce
    then have m2: "messages w2 = messages w"
      using m1 by (simp add: sendMessage_messages)
    show ?thesis
      using e Inr s m2 assms
      by (cases r2) (auto simp add: ssm_deliver_def mark_failed_ok save_message_ok)
  qed
qed

lemma save_message_next_id: "save_message w m now = Inr w' \<Longrightarrow> next_id w' = next_id w"
  by (auto simp: save_message_def Let_def split: option.splits if_splits)

lemma mark_failed_next_id: "next_id (mark_failed E w m e now) = next_id w"
  by (auto simp: mark_failed_def split: sum.splits dest: save_message_next_id)

lemma ssm_deliver_next_id: "next_id (ssm_deliver E w m clock) = next_id w"
proof -
  obtain r w1 where e: "ensureValidToken E w (userId m) (token_readings clock) = (r, w1)"
    by fastforce
  then have n1: "next_id w1 = next_id w"
    by (rule ensureValidToken_next_id)
  show ?thesis
  proof (cases r)
    case (Inl err)
    with e n1 show ?thesis
      by (simp add: ssm_deliver_def mark_failed_next_id)
  next
    case (Inr tok)
    obtain r2 w2 where s: "sendMessage E w1 tok (channelId m) (message m) = (r2, w2)"
      by fastforce
    then have n2: "next_id w2 = next_id w"
      using n1 by (simp add: sendMessage_messages)
    show ?thesis
      using e Inr s n2
      by (cases r2)
         (auto simp add: ssm_deliver_def mark_failed_next_id split: sum.splits
            dest: save_message_next_id)
  qed
qed

lemma ssm_next_id: "next_id (sendScheduledMessage E w i clock) = next_id w"
  by (simp add: sendScheduledMessage_def ssm_deliver_next_id split: option.splits)

lemma ssm_uncastable: "sendScheduledMessage E w (OtherString s) clock = w"
  by (simp add: sendScheduledMessage_def ssm_load_def)

lemma ssm_noop:
  "status_of w k \<noteq> Some Pending \<Longrightarrow> sendScheduledMessage E w (ObjectIdString k) clock = w"
  by (auto simp: sendScheduledMessage_def ssm_load_def status_of_def split: option.splits)

lemma store_ok_valid:
  "store_ok w \<Longrightarrow> byId (messages w) k = Some m \<Longrightarrow> validate_message m = None"
  by (auto simp: store_ok_def list_all_iff dest: byId_Some)

lemma ssm_pending:
  assumes "store_ok w" and "byId (messages w) k = Some m" and "status m = Pending"
  shows "\<exists>m'. messages (sendScheduledMessage E w (ObjectIdString k) clock) =
               update_doc m' (messages w)
            \<and> mid m' = k \<and> (status m' = Sent \<or> status m' = Failed)
            \<and> validate_message m' = None \<and> sentAt m' = Some (stamped_at clock)"
proof -
  let ?m1 = "m\<lparr>status := Sent, sentAt := Some (stamped_at clock)\<rparr>"
  have v: "validate_message ?m1 = None"
    using assms store_ok_valid by simp
  have i: "mid ?m1 \<in> set (map mid (messages w))" "mid ?m1 = k"
    using assms(2) byId_Some by force+
  have "sendScheduledMessage E w (ObjectIdString k) clock = ssm_deliver E w ?m1 clock"
    using assms by (simp add: sendScheduledMessage_def ssm_load_def)
  with ssm_deliver_messages [OF v i(1), of E clock] i(2) v show ?thesis
    by auto
qed

lemma store_ok_update_doc:
  "store_ok w \<Longrightarrow> validate_message m' = None \<Longrightarrow> messages w' = update_doc m' (messages w)
   \<Longrightarrow> store_ok w'"
  using set_update_doc [of m' "messages w"] by (auto simp: store_ok_def list_all_iff)

lemma status_of_update_doc:
  "messages w' = update_doc m' (messages w) \<Longrightarrow> mid m' \<in> set (map mid (messages w)) \<Longrightarrow>
   status_of w' j = (if j = mid m' then Some (status m') else status_of w j)"
  by (simp add: status_of_def byId_update_doc)

lemma status_of_Pending:
  "status_of w k = Some Pending \<longleftrightarrow> (\<exists>m. byId (messages w) k = Some m \<and> status m = Pending)"
  by (auto simp: status_of_def)

lemma ssm_store_ok: "store_ok w \<Longrightarrow> store_ok (sendScheduledMessage E w i clock)"
proof (cases i)
  case (OtherString s)
  assume "store_ok w"
  with OtherString show ?thesis by (simp add: ssm_uncastable)
next
  case (ObjectIdString k)
  assume ok: "store_ok w"
  show ?thesis
  proof (cases "status_of w k = Some Pending")
    case True
    then obtain m where m: "byId (messages w) k = Some m" "status m = Pending"
      by (auto simp: status_of_Pending)
    from ssm_pending [OF ok m, of E clock] ok ObjectIdString show ?thesis
      by (auto intro: store_ok_update_doc)
  next
    case False
    with ok ObjectIdString show ?thesis by (simp add: ssm_noop)
  qed
qed

lemma ssm_status_other:
  assumes "store_ok w" and "i \<noteq> ObjectIdString j"
  shows "status_of (sendScheduledMessage E w i clock) j = status_of w j"
proof (cases i)
  case (OtherString s)
  then show ?thesis by (simp add: ssm_uncastable)
next
  case (ObjectIdString k)
  with assms(2) have ne: "j \<noteq> k" by auto
  show ?thesis
  proof (cases "status_of w k = Some Pending")
    case True
    then obtain m where m: "byId (messages w) k = Some m" "status m = Pending"
      by (auto simp: status_of_Pending)
    then have "k \<in> set (map mid (messages w))"
      using byId_Some by force
    with ssm_pending [OF assms(1) m, of E clock] ne ObjectIdString show ?thesis
      by (auto simp: status_of_update_doc)
  next
    case False
    with ObjectIdString show ?thesis by (simp add: ssm_noop)
  qed
qed

lemma ssm_status_pending:
  assumes "store_ok w" and "status_of w k = Some Pending"
  shows "status_of (sendScheduledMessage E w (ObjectIdString k) clock) k = Some Sent
       \<or> status_of (sendScheduledMessage E w (ObjectIdString k) clock) k = Some Failed"
proof -
  from assms(2) obtain m where m: "byId (messages w) k = Some m" "status m = Pending"
    by (auto simp: status_of_Pending)
  then have "k \<in> set (map mid (messages w))"
    using byId_Some by force
  with ssm_pending [OF assms(1) m, of E clock] show ?thesis
    by (auto simp: status_of_update_doc)
qed

lemma ssm_terminal_stays:
  assumes "store_ok w" and "status_of w j = Some s" and "s \<noteq> Pending"
  shows "status_of (sendScheduledMessage E w i clock) j = Some s"
proof (cases "i = ObjectIdString j")
  case True
  with assms show ?thesis by (simp add: ssm_noop)
next
  case False
  with assms show ?thesis by (simp add: ssm_status_other)
qed

lemma ssm_keeps_record:
  assumes "store_ok w" and "status_of w j = Some s"
  shows "\<exists>s'. status_of (sendScheduledMessage E w i clock) j = Some s'"
proof (cases "i = ObjectIdString j \<and> s = Pending")
  case True
  with ssm_status_pending [OF assms(1), of j E clock] assms(2) show ?thesis
    by auto
next
  case False
  with assms have "status_of (sendScheduledMessage E w i clock) j = Some s"
    by (cases "i = ObjectIdString j") (simp_all add: ssm_noop ssm_status_other)
  then show ?thesis by simp
qed


section \<open>The loop of the poller\<close>

lemma foldl_ssm_store_ok:
  "store_ok w \<Longrightarrow>
   store_ok (foldl (\<lambda>w' m. sendScheduledMessage E w' (ObjectIdString (mid m)) (clocks (mid m))) w ms)"
  by (induction ms arbitrary: w) (simp_all add: ssm_store_ok)

lemma foldl_ssm_next_id:
  "next_id (foldl (\<lambda>w' m. sendScheduledMessage E w' (ObjectIdString (mid m)) (clocks (mid m))) w ms)
     = next_id w"
  by (induction ms arbitrary: w) (simp_all add: ssm_next_id)

lemma foldl_ssm_terminal:
  "store_ok w \<Longrightarrow> status_of w j = Some s \<Longrightarrow> s \<noteq> Pending \<Longrightarrow>
   status_of (foldl (\<lambda>w' m. sendScheduledMessage E w' (ObjectIdString (mid m)) (clocks (mid m))) w ms) j
     = Some s"
  by (induction ms arbitrary: w) (simp_all add: ssm_store_ok ssm_terminal_stays)

lemma foldl_ssm_keeps_record:
  "store_ok w \<Longrightarrow> status_of w j = Some s \<Longrightarrow>
   \<exists>s'. status_of
          (foldl (\<lambda>w' m. sendScheduledMessage E w' (ObjectIdString (mid m)) (clocks (mid m))) w ms) j
        = Some s'"
proof (induction ms arbitrary: w s)
  case Nil
  then show ?case by simp
next
  case (Cons x xs)
  from ssm_keeps_record [OF Cons.prems, of E "ObjectIdString (mid x)" "clocks (mid x)"]
  obtain s1 where
    s1: "status_of (sendScheduledMessage E w (ObjectIdString (mid x)) (clocks (mid x))) j = Some s1"
    by auto
  from Cons.IH [OF ssm_store_ok [OF Cons.prems(1)] s1] show ?case
    by simp
qed





lemma byId_distinct:
  "distinct (map mid xs) \<Longrightarrow> m \<in> set xs \<Longrightarrow> byId xs (mid m) = Some m"
  by (induction xs) (auto simp: byId_def)

lemma status_of_member:
  "store_ok w \<Longrightarrow> m \<in> set (messages w) \<Longrightarrow> status_of w (mid m) = Some (status m)"
  by (simp add: store_ok_def status_of_def byId_distinct)


section \<open>Cancelling and scheduling\<close>

lemma find_SomeD: "find Q xs = Some x \<Longrightarrow> x \<in> set xs \<and> Q x"
  by (induction xs) (auto split: if_splits)

lemma cancel_uncastable: "cancelScheduledMessage w (OtherString s) uid now = (Inl CastError, w)"
  by (simp add: cancelScheduledMessage_def)

lemma cancel_found:
  assumes "store_ok w"
    and "find (\<lambda>m. mid m = k \<and> userId m = uid \<and> status m = Pending) (messages w) = Some m"
  shows "cancelScheduledMessage w (ObjectIdString k) uid now =
           (Inr True, w\<lparr>messages := update_doc (m\<lparr>status := Cancelled, updatedAt := now\<rparr>) (messages w)\<rparr>)"
proof -
  from find_SomeD [OF assms(2)] have m: "m \<in> set (messages w)" "mid m = k"
    by auto
  then have "validate_message (m\<lparr>status := Cancelled\<rparr>) = None"
    using assms(1) by (auto simp: store_ok_def list_all_iff)
  moreover have "mid (m\<lparr>status := Cancelled\<rparr>) \<in> set (map mid (messages w))"
    using m by force
  ultimately have "save_message w (m\<lparr>status := Cancelled\<rparr>) now =
      Inr (w\<lparr>messages := update_doc (m\<lparr>status := Cancelled, updatedAt := now\<rparr>) (messages w)\<rparr>)"
    by (simp add: save_message_ok)
  with assms(2) show ?thesis
    by (simp add: cancelScheduledMessage_def)
qed

lemma cancel_not_found:
  "find (\<lambda>m. mid m = k \<and> userId m = uid \<and> status m = Pending) (messages w) = None \<Longrightarrow>
   cancelScheduledMessage w (ObjectIdString k) uid now = (Inr False, w)"
  by (simp add: cancelScheduledMessage_def)

lemma cancel_next_id: "next_id (snd (cancelScheduledMessage w i uid now)) = next_id w"
  by (auto simp: cancelScheduledMessage_def split: id_string.splits option.splits sum.splits
      dest: save_message_next_id)

lemma cancel_store_ok: "store_ok w \<Longrightarrow> store_ok (snd (cancelScheduledMessage w i uid now))"
proof (cases i)
  case (OtherString s)
  assume "store_ok w"
  with OtherString show ?thesis by (simp add: cancel_uncastable)
next
  case (ObjectIdString k)
  assume ok: "store_ok w"
  show ?thesis
  proof (cases "find (\<lambda>m. mid m = k \<and> userId m = uid \<and> status m = Pending) (messages w)")
    case None
    with ok ObjectIdString show ?thesis by (simp add: cancel_not_found)
  next
    case (Some m)
    from find_SomeD [OF Some] have "m \<in> set (messages w)" by simp
    then have "validate_message m = None"
      using ok by (auto simp: store_ok_def list_all_iff)
    with ok have "store_ok (w\<lparr>messages := update_doc (m\<lparr>status := Cancelled, updatedAt := now\<rparr>) (messages w)\<rparr>)"
      using store_ok_update_doc [of w "m\<lparr>status := Cancelled, updatedAt := now\<rparr>"
          "w\<lparr>messages := update_doc (m\<lparr>status := Cancelled, updatedAt := now\<rparr>) (messages w)\<rparr>"]
      by simp
    with ObjectIdString show ?thesis
      by (simp add: cancel_found [OF ok Some])
  qed
qed

lemma cancel_terminal_stays:
  assumes "store_ok w" and "status_of w j = Some s" and "s \<noteq> Pending"
  shows "status_of (snd (cancelScheduledMessage w i uid now)) j = Some s"
proof (cases i)
  case (OtherString x)
  with assms show ?thesis by (simp add: cancel_uncastable)
next
  case (ObjectIdString k)
  show ?thesis
  proof (cases "find (\<lambda>m. mid m = k \<and> userId m = uid \<and> status m = Pending) (messages w)")
    case None
    with assms ObjectIdString show ?thesis by (simp add: cancel_not_found)
  next
    case (Some m)
    from find_SomeD [OF Some] have m: "m \<in> set (messages w)" "mid m = k" "status m = Pending"
      by auto
    then have "status_of w k = Some Pending"
      using assms(1) status_of_member by force
    with assms have "j \<noteq> k" by auto
    with m ObjectIdString show ?thesis
      using assms(2) by (simp add: cancel_found [OF assms(1) Some] status_of_def byId_update_doc)
  qed
qed

lemma cancel_keeps_record:
  assumes "store_ok w" and "status_of w j = Some s"
  shows "\<exists>s'. status_of (snd (cancelScheduledMessage w i uid now)) j = Some s'"
proof (cases i)
  case (OtherString x)
  with assms show ?thesis by (simp add: cancel_uncastable)
next
  case (ObjectIdString k)
  show ?thesis
  proof (cases "find (\<lambda>m. mid m = k \<and> userId m = uid \<and> status m = Pending) (messages w)")
    case None
    with assms(2) ObjectIdString show ?thesis by (simp add: cancel_not_found)
  next
    case (Some m)
    with assms(2) ObjectIdString show ?thesis
      by (auto simp: cancel_found [OF assms(1) Some] status_of_def byId_update_doc)
  qed
qed

lemma save_new_message_cases:
  "save_new_message w d now = Inr w' \<Longrightarrow>
   validate_message d = None \<and> mid d \<notin> set (map mid (messages w)) \<and>
   w' = w\<lparr>messages := messages w @ [d\<lparr>updatedAt := now\<rparr>]\<rparr>"
  by (simp add: save_new_message_def Let_def split: option.splits if_splits)

lemma new_message_simps [simp]:
  "mid (newScheduledMessage oid now uid tid cid cname msg sfor) = oid"
  "status (newScheduledMessage oid now uid tid cid cname msg sfor) = Pending"
  "sentAt (newScheduledMessage oid now uid tid cid cname msg sfor) = None"
  "validate_message (newScheduledMessage oid now uid tid cid cname msg sfor) =
     (if message_path_errors uid tid cid cname msg = [] then None
      else Some (ValidationError (message_path_errors uid tid cid cname msg)))"
  by (simp_all add: newScheduledMessage_def validate_message_def Let_def)

text \<open>The three ways out of \<^verbatim>\<open>scheduleMessage\<close>.\<close>

lemma schedule_cases:
  "scheduleMessage w clock uid tid cid cname msg sfor =
     (Inl (Error ''Scheduled time must be in the future''), w)
 \<or> (\<exists>e. scheduleMessage w clock uid tid cid cname msg sfor =
          (Inl e, w\<lparr>next_id := Suc (next_id w)\<rparr>))
 \<or> (\<exists>t. sfor = Instant t \<and> next_id w \<notin> set (map mid (messages w)) \<and>
        message_path_errors uid tid cid cname msg = [] \<and>
        scheduleMessage w clock uid tid cid cname msg sfor =
          (Inr (ObjectIdString (next_id w)),
           w\<lparr>next_id := Suc (next_id w),
             messages := messages w @
               [(newScheduledMessage (next_id w) (created_at clock) uid tid cid cname msg t)
                  \<lparr>updatedAt := inserted_at clock\<rparr>]\<rparr>))"
proof (cases "date_le sfor (guard_at clock)")
  case True
  then show ?thesis by (simp add: scheduleMessage_def)
next
  case False
  show ?thesis
  proof (cases sfor)
    case InvalidDate
    with False show ?thesis by (simp add: scheduleMessage_def)
  next
    case (Instant t)
    let ?w0 = "w\<lparr>next_id := Suc (next_id w)\<rparr>"
    let ?d = "newScheduledMessage (next_id w) (created_at clock) uid tid cid cname msg t"
    show ?thesis
    proof (cases "save_new_message ?w0 ?d (inserted_at clock)")
      case (Inl e)
      with False Instant show ?thesis by (simp add: scheduleMessage_def Let_def)
    next
      case (Inr w')
      from save_new_message_cases [OF Inr] Inr False Instant show ?thesis
        by (simp add: scheduleMessage_def Let_def split: if_splits)
    qed
  qed
qed

lemma schedule_store_ok:
  assumes "store_ok w"
  shows "store_ok (snd (scheduleMessage w clock uid tid cid cname msg sfor))"
  using schedule_cases [of w clock uid tid cid cname msg sfor] assms
  by (auto simp: store_ok_def)

lemma schedule_status_stays:
  assumes "status_of w j = Some s"
  shows "status_of (snd (scheduleMessage w clock uid tid cid cname msg sfor)) j = Some s"
proof -
  from assms obtain m where "byId (messages w) j = Some m" "status m = s"
    by (auto simp: status_of_def)
  with schedule_cases [of w clock uid tid cid cname msg sfor] show ?thesis
    by (auto simp: status_of_def byId_append)
qed

lemma schedule_ids_issued:
  assumes "ids_issued w"
  shows "ids_issued (snd (scheduleMessage w clock uid tid cid cname msg sfor))"
  using schedule_cases [of w clock uid tid cid cname msg sfor] assms
  by (auto simp: ids_issued_def list_all_iff less_Suc_eq)


section \<open>Sequences of operations keep the invariants\<close>

lemma tick_store_ok: "store_ok w \<Longrightarrow> store_ok (processScheduledMessages E w now clocks)"
  by (simp add: processScheduledMessages_def Let_def foldl_ssm_store_ok)

lemma tick_terminal_stays:
  "store_ok w \<Longrightarrow> status_of w j = Some s \<Longrightarrow> s \<noteq> Pending \<Longrightarrow>
   status_of (processScheduledMessages E w now clocks) j = Some s"
  by (simp add: processScheduledMessages_def Let_def foldl_ssm_terminal)

lemma apply_op_store_ok: "store_ok w \<Longrightarrow> store_ok (apply_op E w x)"
  by (cases "(E, w, x)" rule: apply_op.cases)
     (simp_all add: schedule_store_ok cancel_store_ok ssm_store_ok tick_store_ok)

lemma apply_op_terminal_stays:
  "store_ok w \<Longrightarrow> status_of w j = Some s \<Longrightarrow> s \<noteq> Pending \<Longrightarrow>
   status_of (apply_op E w x) j = Some s"
  by (cases "(E, w, x)" rule: apply_op.cases)
     (simp_all add: schedule_status_stays cancel_terminal_stays ssm_terminal_stays
        tick_terminal_stays)

lemma run_store_ok: "store_ok w \<Longrightarrow> store_ok (run E w ops)"
  unfolding run_def by (induction ops arbitrary: w) (simp_all add: apply_op_store_ok)

lemma ids_issued_same:
  "ids_issued w \<Longrightarrow> map mid (messages w') = map mid (messages w) \<Longrightarrow> next_id w' = next_id w
   \<Longrightarrow> ids_issued w'"
proof -
  assume a: "ids_issued w" and b: "map mid (messages w') = map mid (messages w)"
    and c: "next_id w' = next_id w"
  have "ids_issued w' = list_all (\<lambda>k. k < next_id w') (map mid (messages w'))"
    by (simp add: ids_issued_def list_all_iff)
  also have "\<dots> = list_all (\<lambda>k. k < next_id w) (map mid (messages w))"
    using b c by simp
  also have "\<dots> = ids_issued w"
    by (simp add: ids_issued_def list_all_iff)
  finally show ?thesis using a by simp
qed

lemma ssm_ids:
  "store_ok w \<Longrightarrow> map mid (messages (sendScheduledMessage E w i clock)) = map mid (messages w)"
proof (cases i)
  case (OtherString s)
  then show ?thesis by (simp add: ssm_uncastable)
next
  case (ObjectIdString k)
  assume ok: "store_ok w"
  show ?thesis
  proof (cases "status_of w k = Some Pending")
    case True
    then obtain m where m: "byId (messages w) k = Some m" "status m = Pending"
      by (auto simp: status_of_Pending)
    from ssm_pending [OF ok m, of E clock] ObjectIdString show ?thesis
      by auto
  next
    case False
    with ObjectIdString show ?thesis by (simp add: ssm_noop)
  qed
qed

lemma ssm_ids_issued:
  "store_ok w \<Longrightarrow> ids_issued w \<Longrightarrow> ids_issued (sendScheduledMessage E w i clock)"
  by (rule ids_issued_same) (simp_all add: ssm_ids ssm_next_id)

lemma foldl_ssm_ids_issued:
  "store_ok w \<Longrightarrow> ids_issued w \<Longrightarrow>
   ids_issued (foldl (\<lambda>w' m. sendScheduledMessage E w' (ObjectIdString (mid m)) (clocks (mid m))) w ms)"
  by (induction ms arbitrary: w) (simp_all add: ssm_store_ok ssm_ids_issued)

lemma cancel_ids:
  "store_ok w \<Longrightarrow> map mid (messages (snd (cancelScheduledMessage w i uid now))) = map mid (messages w)"
proof (cases i)
  case (OtherString s)
  then show ?thesis by (simp add: cancel_uncastable)
next
  case (ObjectIdString k)
  assume ok: "store_ok w"
  show ?thesis
  proof (cases "find (\<lambda>m. mid m = k \<and> userId m = uid \<and> status m = Pending) (messages w)")
    case None
    with ObjectIdString show ?thesis by (simp add: cancel_not_found)
  next
    case (Some m)
    with ObjectIdString show ?thesis by (simp add: cancel_found [OF ok Some])
  qed
qed

lemma cancel_ids_issued:
  "store_ok w \<Longrightarrow> ids_issued w \<Longrightarrow> ids_issued (snd (cancelScheduledMessage w i uid now))"
  by (rule ids_issued_same) (simp_all add: cancel_ids cancel_next_id)

lemma apply_op_ids_issued:
  "store_ok w \<Longrightarrow> ids_issued w \<Longrightarrow> ids_issued (apply_op E w x)"
  by (cases "(E, w, x)" rule: apply_op.cases)
     (simp_all add: schedule_ids_issued cancel_ids_issued ssm_ids_issued
        foldl_ssm_ids_issued processScheduledMessages_def Let_def)

lemma run_ids_issued: "store_ok w \<Longrightarrow> ids_issued w \<Longrightarrow> ids_issued (run E w ops)"
  unfolding run_def
  by (induction ops arbitrary: w) (simp_all add: apply_op_store_ok apply_op_ids_issued)

lemma apply_op_keeps_record:
  "store_ok w \<Longrightarrow> status_of w j = Some s \<Longrightarrow> \<exists>s'. status_of (apply_op E w x) j = Some s'"
  by (cases "(E, w, x)" rule: apply_op.cases)
     (simp_all add: schedule_status_stays cancel_keeps_record ssm_keeps_record
        foldl_ssm_keeps_record processScheduledMessages_def Let_def)

lemma run_keeps_record:
  "store_ok w \<Longrightarrow> status_of w j = Some s \<Longrightarrow> \<exists>s'. status_of (run E w ops) j = Some s'"
proof (induction ops arbitrary: w s)
  case Nil
  then show ?case by (simp add: run_def)
next
  case (Cons x xs)
  from apply_op_keeps_record [OF Cons.prems, of E x] obtain s1 where
    s1: "status_of (apply_op E w x) j = Some s1"
    by auto
  from Cons.IH [OF apply_op_store_ok [OF Cons.prems(1)] s1] show ?case
    by (simp add: run_def)
qed

lemma run_terminal_stays:
  "store_ok w \<Longrightarrow> status_of w j = Some s \<Longrightarrow> s \<noteq> Pending \<Longrightarrow>
   status_of (run E w ops) j = Some s"
  unfolding run_def
  by (induction ops arbitrary: w) (simp_all add: apply_op_store_ok apply_op_terminal_stays)

text \<open>Both invariants hold of every world that the engine reaches from an empty message
  collection.\<close>

lemma reachable_store_ok:
  "store_ok (run E \<lparr>messages = [], users = us, calls = cs, next_id = n\<rparr> ops)"
  by (rule run_store_ok) (simp add: store_ok_def)

lemma reachable_ids_issued:
  "ids_issued (run E \<lparr>messages = [], users = us, calls = cs, next_id = n\<rparr> ops)"
  by (rule run_ids_issued) (simp_all add: store_ok_def ids_issued_def)

text \<open>When the operations run one after the other, each to its end, a record stays in the
  store and a terminal status stays as it is.\<close>

lemma sequential_status_monotone:
  assumes "store_ok w" and "status_of w j = Some s"
  shows "\<exists>s'. status_of (run E w ops) j = Some s' \<and> (s' = s \<or> (s = Pending \<and> s' \<noteq> Pending))"
proof (cases "s = Pending")
  case True
  with run_keeps_record [OF assms, of E ops] show ?thesis
    by auto
next
  case False
  with run_terminal_stays [OF assms, of E ops] show ?thesis
    by simp
qed

section \<open>Counting the calls to the provider\<close>

lemma save_message_calls: "save_message w m now = Inr w' \<Longrightarrow> calls w' = calls w"
  by (auto simp: save_message_def Let_def split: option.splits if_splits)

lemma mark_failed_calls: "calls (mark_failed E w m e now) = calls w"
  by (auto simp: mark_failed_def split: sum.splits dest: save_message_calls)

lemma ensureValidToken_post_count:
  "ensureValidToken E w uid clock = (r, w1) \<Longrightarrow> post_count w1 = post_count w"
  by (auto simp: ensureValidToken_def refreshAccessToken_def Let_def post_count_def
      split: option.splits if_splits sum.splits prod.splits dest: save_user_messages)


lemma post_count_cong: "calls w' = calls w \<Longrightarrow> post_count w' = post_count w"
  by (simp add: post_count_def)



lemma ssm_deliver_no_token:
  assumes "fst (ensureValidToken E w (userId m) (token_readings clock)) = Inl e"
  shows "post_count (ssm_deliver E w m clock) = post_count w"
proof -
  obtain r w1 where r: "ensureValidToken E w (userId m) (token_readings clock) = (r, w1)"
    by fastforce
  with assms have "ssm_deliver E w m clock = mark_failed E w1 m e (saved_at clock)"
    by (simp add: ssm_deliver_def)
  with ensureValidToken_post_count [OF r] show ?thesis
    by (simp add: post_count_cong [OF mark_failed_calls])
qed

section \<open>The part of the sentAt rule that holds\<close>

lemma list_all_update_doc:
  "list_all Q xs \<Longrightarrow> Q m \<Longrightarrow> list_all Q (update_doc m xs)"
  using set_update_doc [of m xs] by (auto simp: list_all_iff)

lemma ssm_sentAt_consistent:
  assumes "store_ok w" and "list_all sentAt_consistent (messages w)"
  shows "list_all sentAt_consistent (messages (sendScheduledMessage E w i clock))"
proof (cases i)
  case (OtherString s)
  with assms(2) show ?thesis by (simp add: ssm_uncastable)
next
  case (ObjectIdString k)
  show ?thesis
  proof (cases "status_of w k = Some Pending")
    case True
    then obtain m where m: "byId (messages w) k = Some m" "status m = Pending"
      by (auto simp: status_of_Pending)
    from ssm_pending [OF assms(1) m, of E clock] obtain m' where
      m': "messages (sendScheduledMessage E w (ObjectIdString k) clock) = update_doc m' (messages w)"
        "status m' = Sent \<or> status m' = Failed" "sentAt m' = Some (stamped_at clock)"
      by auto
    then have "sentAt_consistent m'" by auto
    with assms(2) m'(1) ObjectIdString show ?thesis
      by (simp add: list_all_update_doc del: sentAt_consistent.simps)
  next
    case False
    with assms(2) ObjectIdString show ?thesis by (simp add: ssm_noop)
  qed
qed

lemma foldl_ssm_sentAt_consistent:
  "store_ok w \<Longrightarrow> list_all sentAt_consistent (messages w) \<Longrightarrow>
   list_all sentAt_consistent
     (messages (foldl (\<lambda>w' m. sendScheduledMessage E w' (ObjectIdString (mid m)) (clocks (mid m))) w ms))"
  by (induction ms arbitrary: w) (simp_all add: ssm_store_ok ssm_sentAt_consistent)

lemma cancel_sentAt_consistent:
  assumes "store_ok w" and "list_all sentAt_consistent (messages w)"
  shows "list_all sentAt_consistent (messages (snd (cancelScheduledMessage w i uid now)))"
proof (cases i)
  case (OtherString s)
  with assms(2) show ?thesis by (simp add: cancel_uncastable)
next
  case (ObjectIdString k)
  show ?thesis
  proof (cases "find (\<lambda>m. mid m = k \<and> userId m = uid \<and> status m = Pending) (messages w)")
    case None
    with assms(2) ObjectIdString show ?thesis by (simp add: cancel_not_found)
  next
    case (Some m)
    from find_SomeD [OF Some] have m: "m \<in> set (messages w)" "status m = Pending"
      by auto
    with assms(2) have "sentAt m = None"
      by (auto simp: list_all_iff)
    then have "sentAt_consistent (m\<lparr>status := Cancelled, updatedAt := now\<rparr>)"
      by simp
    with assms(2) ObjectIdString show ?thesis
      by (simp add: cancel_found [OF assms(1) Some] list_all_update_doc
          del: sentAt_consistent.simps)
  qed
qed

lemma schedule_sentAt_consistent:
  assumes "list_all sentAt_consistent (messages w)"
  shows "list_all sentAt_consistent
     (messages (snd (scheduleMessage w clock uid tid cid cname msg sfor)))"
proof -
  have "\<And>k c t x. sentAt_consistent
      ((newScheduledMessage k c uid tid cid cname msg t)\<lparr>updatedAt := x\<rparr>)"
    by (simp add: newScheduledMessage_def)
  with schedule_cases [of w clock uid tid cid cname msg sfor] assms show ?thesis
    by (auto simp del: sentAt_consistent.simps)
qed

lemma apply_op_sentAt_consistent:
  "store_ok w \<Longrightarrow> list_all sentAt_consistent (messages w) \<Longrightarrow>
   list_all sentAt_consistent (messages (apply_op E w x))"
  by (cases "(E, w, x)" rule: apply_op.cases)
     (simp_all add: schedule_sentAt_consistent cancel_sentAt_consistent ssm_sentAt_consistent
        foldl_ssm_sentAt_consistent processScheduledMessages_def Let_def
        del: sentAt_consistent.simps)

lemma run_sentAt_consistent:
  "store_ok w \<Longrightarrow> list_all sentAt_consistent (messages w) \<Longrightarrow>
   list_all sentAt_consistent (messages (run E w ops))"
  unfolding run_def
  by (induction ops arbitrary: w)
     (simp_all add: apply_op_store_ok apply_op_sentAt_consistent del: sentAt_consistent.simps)

section \<open>The store while a send is in flight\<close>

lemma store_unchanged_at_send:
  assumes "ssm_load w (ObjectIdString k) now = Some m"
    and "ensureValidToken E w (userId m) clock = (Inr tok, w1)"
  shows "status_of w1 k = Some Pending"
proof -
  from assms(1) have "status_of w k = Some Pending"
    by (auto simp: ssm_load_def status_of_def split: option.splits if_splits)
  with ensureValidToken_messages [OF assms(2)] show ?thesis
    by (simp add: status_of_def)
qed

lemma attempt_stamps_sentAt:
  assumes "store_ok w" and "status_of w k = Some Pending"
  shows "map_option sentAt
           (byId (messages (sendScheduledMessage E w (ObjectIdString k) clock)) k) =
         Some (Some (stamped_at clock))"
proof -
  from assms(2) obtain m where m: "byId (messages w) k = Some m" "status m = Pending"
    by (auto simp: status_of_Pending)
  then have "k \<in> set (map mid (messages w))"
    using byId_Some by force
  with ssm_pending [OF assms(1) m, of E clock] show ?thesis
    by (auto simp: byId_update_doc)
qed


section \<open>Refreshing a credential\<close>

lemma user_path_errors_upd [simp]:
  "user_path_errors (u\<lparr>refreshToken := f\<rparr>) = user_path_errors u"
  "user_path_errors (u\<lparr>tokenExpiresAt := g\<rparr>) = user_path_errors u"
  "user_path_errors (u\<lparr>user_updatedAt := h\<rparr>) = user_path_errors u"
  by (simp_all add: user_path_errors_def)

text \<open>The user that lines 196 to 202 make of the stored one and the answer, when the new
  expiry is a valid date.\<close>

lemma apply_refresh_valid:
  "truthy_number (expires_in r) \<longrightarrow> new_Date (now + the (expires_in r) * 1000) \<noteq> None \<Longrightarrow>
   apply_refresh u r now =
     (u\<lparr>accessToken := access_token r,
        refreshToken := (if truthy_string (refresh_token r) then refresh_token r
                         else refreshToken u),
        tokenExpiresAt := (if truthy_number (expires_in r)
                           then Some (now + the (expires_in r) * 1000)
                           else tokenExpiresAt u)\<rparr>, [])"
  by (cases u) (auto simp: apply_refresh_def new_Date_def Let_def split: if_splits)

lemma apply_refresh_invalid:
  "truthy_number (expires_in r) \<Longrightarrow> new_Date (now + the (expires_in r) * 1000) = None \<Longrightarrow>
   snd (apply_refresh u r now) = [''tokenExpiresAt'']"
  by (simp add: apply_refresh_def Let_def)

lemma apply_refresh_errors:
  "user_path_errors (fst (apply_refresh u r now)) =
   user_path_errors (u\<lparr>accessToken := access_token r\<rparr>)"
  by (simp add: apply_refresh_def Let_def split: option.splits)

lemma apply_refresh_oid: "user_oid (fst (apply_refresh u r now)) = user_oid u"
  by (simp add: apply_refresh_def Let_def split: option.splits)

lemma ensureValidToken_refresh_unfold:
  assumes "find (\<lambda>u. slack_id u = uid) (users w) = Some u"
    and "tokenExpiresAt u = Some t" and "t \<le> checked_at clock"
    and "refreshToken u = Some rt" and "rt \<noteq> []"
    and "oauth_v2_access E (calls w) rt = Some r"
  shows "ensureValidToken E w uid clock =
     (case save_user (w\<lparr>calls := calls w @ [OAuthRefresh rt]\<rparr>)
             (fst (apply_refresh u r (refreshed_at clock)))
             (snd (apply_refresh u r (refreshed_at clock))) (user_saved_at clock) of
        Inl e \<Rightarrow> (Inl e, w\<lparr>calls := calls w @ [OAuthRefresh rt]\<rparr>)
      | Inr w2 \<Rightarrow> (Inr (access_token r), w2))"
  using assms
  by (simp add: ensureValidToken_def refreshAccessToken_def split: prod.splits)

lemma ensureValidToken_refreshed:
  assumes "find (\<lambda>u. slack_id u = uid) (users w) = Some u"
    and "tokenExpiresAt u = Some t" and "t \<le> checked_at clock"
    and "refreshToken u = Some rt" and "rt \<noteq> []"
    and "oauth_v2_access E (calls w) rt = Some r"
    and "user_path_errors (u\<lparr>accessToken := access_token r\<rparr>) = []"
    and "truthy_number (expires_in r) \<longrightarrow>
           new_Date (refreshed_at clock + the (expires_in r) * 1000) \<noteq> None"
  shows "ensureValidToken E w uid clock =
        (Inr (access_token r),
         w\<lparr>calls := calls w @ [OAuthRefresh rt],
           users := update_user
             (u\<lparr>accessToken := access_token r,
                refreshToken := (if truthy_string (refresh_token r) then refresh_token r
                                 else refreshToken u),
                tokenExpiresAt := (if truthy_number (expires_in r)
                                   then Some (refreshed_at clock + the (expires_in r) * 1000)
                                   else tokenExpiresAt u),
                user_updatedAt := user_saved_at clock\<rparr>) (users w)\<rparr>)"
proof -
  from assms(1) have "u \<in> set (users w)"
    using find_SomeD by fast
  then have "user_oid u \<in> user_oid ` set (users w)"
    by simp
  with assms(7) show ?thesis
    by (simp add: ensureValidToken_refresh_unfold [OF assms(1-6)] apply_refresh_valid [OF assms(8)]
        save_user_def validate_user_def Let_def)
qed

lemma ensureValidToken_refresh_rejected:
  assumes "find (\<lambda>u. slack_id u = uid) (users w) = Some u"
    and "tokenExpiresAt u = Some t" and "t \<le> checked_at clock"
    and "refreshToken u = Some rt" and "rt \<noteq> []"
    and "oauth_v2_access E (calls w) rt = Some r"
    and "user_path_errors (u\<lparr>accessToken := access_token r\<rparr>) \<noteq> []
       \<or> (truthy_number (expires_in r)
          \<and> new_Date (refreshed_at clock + the (expires_in r) * 1000) = None)"
  shows "\<exists>paths. ensureValidToken E w uid clock =
           (Inl (ValidationError paths), w\<lparr>calls := calls w @ [OAuthRefresh rt]\<rparr>)"
proof -
  let ?u = "fst (apply_refresh u r (refreshed_at clock))"
  let ?cf = "snd (apply_refresh u r (refreshed_at clock))"
  from assms(7) have "user_path_errors ?u @ ?cf \<noteq> []"
    by (auto simp: apply_refresh_errors apply_refresh_invalid)
  then have "save_user (w\<lparr>calls := calls w @ [OAuthRefresh rt]\<rparr>) ?u ?cf (user_saved_at clock) =
      Inl (ValidationError (user_path_errors ?u @ ?cf))"
    by (simp add: save_user_def validate_user_def Let_def)
  then show ?thesis
    by (simp add: ensureValidToken_refresh_unfold [OF assms(1-6)])
qed

lemma ensureValidToken_still_valid:
  "find (\<lambda>u. slack_id u = uid) (users w) = Some u \<Longrightarrow>
   \<not> token_expired (tokenExpiresAt u) (checked_at clock) \<Longrightarrow>
   ensureValidToken E w uid clock = (Inr (accessToken u), w)"
  by (simp add: ensureValidToken_def)

lemma find_update_user:
  "distinct (map user_oid xs) \<Longrightarrow> find Q xs = Some u \<Longrightarrow> Q u' \<Longrightarrow> user_oid u' = user_oid u \<Longrightarrow>
   find Q (update_user u' xs) = Some u'"
proof (induction xs)
  case Nil
  then show ?case by simp
next
  case (Cons x xs)
  show ?case
  proof (cases "Q x")
    case True
    with Cons.prems show ?thesis by simp
  next
    case False
    with Cons.prems have "find Q xs = Some u" by simp
    then have "u \<in> set xs" using find_SomeD by fast
    with Cons.prems(1) have "user_oid x \<noteq> user_oid u" by force
    with False Cons show ?thesis by simp
  qed
qed

text \<open>After a refresh that brought a new expiry, a second call that reads the clock before
  that expiry returns the same token, calls nobody and writes nothing.\<close>

lemma refreshed_token_is_reused:
  assumes "distinct (map user_oid (users w))"
    and "find (\<lambda>u. slack_id u = uid) (users w) = Some u"
    and "tokenExpiresAt u = Some t" and "t \<le> checked_at clock"
    and "refreshToken u = Some rt" and "rt \<noteq> []"
    and "oauth_v2_access E (calls w) rt = Some r"
    and "user_path_errors (u\<lparr>accessToken := access_token r\<rparr>) = []"
    and "expires_in r = Some n" and "n \<noteq> 0"
    and "new_Date (refreshed_at clock + n * 1000) \<noteq> None"
    and "checked_at clock' < refreshed_at clock + n * 1000"
  shows "ensureValidToken E (snd (ensureValidToken E w uid clock)) uid clock' =
           (Inr (access_token r), snd (ensureValidToken E w uid clock))"
proof -
  let ?u' = "u\<lparr>accessToken := access_token r,
                refreshToken := (if truthy_string (refresh_token r) then refresh_token r
                                 else refreshToken u),
                tokenExpiresAt := (if truthy_number (expires_in r)
                                   then Some (refreshed_at clock + the (expires_in r) * 1000)
                                   else tokenExpiresAt u),
                user_updatedAt := user_saved_at clock\<rparr>"
  let ?w' = "w\<lparr>calls := calls w @ [OAuthRefresh rt], users := update_user ?u' (users w)\<rparr>"
  have valid: "truthy_number (expires_in r) \<longrightarrow>
      new_Date (refreshed_at clock + the (expires_in r) * 1000) \<noteq> None"
    using assms(9,11) by simp
  have first: "snd (ensureValidToken E w uid clock) = ?w'"
    by (simp add: ensureValidToken_refreshed [OF assms(2-8) valid])
  from assms(2) have "slack_id u = uid"
    using find_SomeD by fast
  then have "find (\<lambda>u. slack_id u = uid) (update_user ?u' (users w)) = Some ?u'"
    using assms(1,2) by (intro find_update_user) simp_all
  then have found: "find (\<lambda>u. slack_id u = uid) (users ?w') = Some ?u'"
    by simp
  have fresh: "\<not> token_expired (tokenExpiresAt ?u') (checked_at clock')"
    using assms(9,10,12) by simp
  have "accessToken ?u' = access_token r"
    by simp
  with ensureValidToken_still_valid [OF found fresh, of E] first show ?thesis
    by simp
qed


section \<open>The claims of the specification\<close>

text \<open>
  Claim C1 (the code does not do this). The specification has \<^verbatim>\<open>sendScheduledMessage\<close>
  commit status \<^verbatim>\<open>sent\<close> with \<^verbatim>\<open>sentAt\<close> to the record store right after the pending check
  and before the external send, so that a second tick or a concurrent force-send skips the
  record. The source assigns both fields on the loaded object only (lines 71 and 72, under
  the comment "Update status to prevent duplicate processing"); the first \<^verbatim>\<open>save()\<close> is on
  line 89, after the provider has answered. On a store with one pending record: the token
  check returns the world unchanged, so the send is issued while the store still shows the
  record as pending; a second call that reads the store at that moment loads the record as
  pending too; and when both calls run on, the message is posted twice.
\<close>

theorem status_not_written_before_send:
  "ssm_load one_pending (ObjectIdString 11) 100 =
     Some ((memo 11 Pending 10)\<lparr>status := Sent, sentAt := Some 100\<rparr>)
 \<and> ensureValidToken slack_up one_pending ''U1'' (token_from 101) = (Inr ''xoxb-1'', one_pending)
 \<and> status_of one_pending 11 = Some Pending
 \<and> ssm_load one_pending (ObjectIdString 11) 102 =
     Some ((memo 11 Pending 10)\<lparr>status := Sent, sentAt := Some 102\<rparr>)
 \<and> post_count
      (ssm_deliver slack_up
         (ssm_deliver slack_up one_pending
            ((memo 11 Pending 10)\<lparr>status := Sent, sentAt := Some 100\<rparr>) (send_from 100))
         ((memo 11 Pending 10)\<lparr>status := Sent, sentAt := Some 102\<rparr>) (send_from 102)) = 2"
  by (simp add: engine_defs demo_defs Let_def)



lemma poller_tick_isolates_failure:
  "status_of (processScheduledMessages slack_up two_due 100 (\<lambda>k. send_from (100 + int k))) 11
     = Some Failed
 \<and> status_of (processScheduledMessages slack_up two_due 100 (\<lambda>k. send_from (100 + int k))) 12
     = Some Sent"
  by (simp add: engine_defs demo_defs Let_def)

text \<open>
  Claim C3 (the code does not do this). The specification has \<^verbatim>\<open>sentAt\<close> set if and only if
  the status is \<^verbatim>\<open>sent\<close>, so a failed record has none. The source stamps \<^verbatim>\<open>sentAt\<close> on line 72
  before the delivery is tried, and the \<^verbatim>\<open>catch\<close> of lines 94 to 98 resets the status and the
  error but not \<^verbatim>\<open>sentAt\<close>. With an unreachable provider the pending record ends failed
  and carries the instant of the attempt.
\<close>

theorem failed_record_keeps_sentAt:
  "status_of (sendScheduledMessage slack_down one_pending (ObjectIdString 11) (send_from 100)) 11
     = Some Failed
 \<and> map_option sentAt
      (byId (messages (sendScheduledMessage slack_down one_pending (ObjectIdString 11)
         (send_from 100))) 11) =
     Some (Some 100)"
  by (simp add: engine_defs demo_defs Let_def)

text \<open>
  Claim C4 (the code does not do this). The specification has the statistics of a principal
  with 3 pending, 2 sent, 1 failed and 1 cancelled records be total 7, pending 3, sent 2,
  failed 1, cancelled 1. The handler counts the cancelled entries of the listing, and the
  listing never holds one: on that store it answers total 6 and cancelled 0.
\<close>

theorem stats_omit_cancelled:
  "map (\<lambda>s. length (filter (\<lambda>m. userId m = ''U1'' \<and> status m = s) (messages seven_records)))
     [Pending, Sent, Failed, Cancelled] = [3, 2, 1, 1]
 \<and> messages_stats seven_records ''U1'' =
     \<lparr>total = 6, pending = 3, sent = 2, failed = 1, cancelled = 0\<rparr>"
  by (simp add: messages_stats_def getUserScheduledMessages_def to_view_def demo_defs Let_def)

text \<open>
  Claim C5 (as amended). \<^verbatim>\<open>ensureValidToken\<close> follows the algorithm of the specification:
  without a credential for the principal it fails; with \<^verbatim>\<open>tokenExpiresAt\<close> absent or strictly
  in the future it returns the stored access token and the world is unchanged (no refresh
  call, no write); expired without a refresh token it fails with the expiry error; expired
  with a refresh token it calls the refresh endpoint, and when that fails the error is
  passed on, and the delivery that asked for the token posts nothing. When the refresh
  succeeds and the credential with the new token passes the schema of the user and the new
  expiry, if there is one, is a valid date, the access token is overwritten, the refresh
  token and the expiry too when the answer carries them, the credential is saved and the
  new token returned. When the refresh succeeds and the credential with the new token fails
  the schema or the new expiry is not a valid date, the save throws a validation error,
  which is passed on: no token is returned and no credential is written.
\<close>

theorem ensureValidToken_algorithm:
  "(find (\<lambda>u. slack_id u = uid) (users w) = None \<longrightarrow>
      ensureValidToken E w uid clock = (Inl (Error ''User not found''), w))
 \<and> (\<forall>u. find (\<lambda>u. slack_id u = uid) (users w) = Some u
        \<and> (tokenExpiresAt u = None \<or> (\<exists>t. tokenExpiresAt u = Some t \<and> checked_at clock < t)) \<longrightarrow>
      ensureValidToken E w uid clock = (Inr (accessToken u), w))
 \<and> (\<forall>u t. find (\<lambda>u. slack_id u = uid) (users w) = Some u
        \<and> tokenExpiresAt u = Some t \<and> t \<le> checked_at clock
        \<and> (refreshToken u = None \<or> refreshToken u = Some []) \<longrightarrow>
      ensureValidToken E w uid clock =
        (Inl (Error ''Token expired and no refresh token available''), w))
 \<and> (\<forall>u t rt. find (\<lambda>u. slack_id u = uid) (users w) = Some u
        \<and> tokenExpiresAt u = Some t \<and> t \<le> checked_at clock
        \<and> refreshToken u = Some rt \<and> rt \<noteq> []
        \<and> oauth_v2_access E (calls w) rt = None \<longrightarrow>
      ensureValidToken E w uid clock =
        (Inl (Error ''Failed to refresh access token''), w\<lparr>calls := calls w @ [OAuthRefresh rt]\<rparr>))
 \<and> (\<forall>u t rt r. find (\<lambda>u. slack_id u = uid) (users w) = Some u
        \<and> tokenExpiresAt u = Some t \<and> t \<le> checked_at clock
        \<and> refreshToken u = Some rt \<and> rt \<noteq> []
        \<and> oauth_v2_access E (calls w) rt = Some r
        \<and> user_path_errors (u\<lparr>accessToken := access_token r\<rparr>) = []
        \<and> (truthy_number (expires_in r) \<longrightarrow>
             new_Date (refreshed_at clock + the (expires_in r) * 1000) \<noteq> None) \<longrightarrow>
      ensureValidToken E w uid clock =
        (Inr (access_token r),
         w\<lparr>calls := calls w @ [OAuthRefresh rt],
           users := update_user
             (u\<lparr>accessToken := access_token r,
                refreshToken := (if truthy_string (refresh_token r) then refresh_token r
                                 else refreshToken u),
                tokenExpiresAt := (if truthy_number (expires_in r)
                                   then Some (refreshed_at clock + the (expires_in r) * 1000)
                                   else tokenExpiresAt u),
                user_updatedAt := user_saved_at clock\<rparr>) (users w)\<rparr>))
 \<and> (\<forall>u t rt r. find (\<lambda>u. slack_id u = uid) (users w) = Some u
        \<and> tokenExpiresAt u = Some t \<and> t \<le> checked_at clock
        \<and> refreshToken u = Some rt \<and> rt \<noteq> []
        \<and> oauth_v2_access E (calls w) rt = Some r
        \<and> (user_path_errors (u\<lparr>accessToken := access_token r\<rparr>) \<noteq> []
           \<or> (truthy_number (expires_in r)
              \<and> new_Date (refreshed_at clock + the (expires_in r) * 1000) = None)) \<longrightarrow>
      (\<exists>paths. ensureValidToken E w uid clock =
         (Inl (ValidationError paths), w\<lparr>calls := calls w @ [OAuthRefresh rt]\<rparr>)))
 \<and> (\<forall>m e sc. token_readings sc = clock
        \<and> fst (ensureValidToken E w (userId m) clock) = Inl e \<longrightarrow>
        post_count (ssm_deliver E w m sc) = post_count w)"
proof (intro conjI allI impI)
  assume "find (\<lambda>u. slack_id u = uid) (users w) = None"
  then show "ensureValidToken E w uid clock = (Inl (Error ''User not found''), w)"
    by (simp add: ensureValidToken_def)
next
  fix u
  assume "find (\<lambda>u. slack_id u = uid) (users w) = Some u
        \<and> (tokenExpiresAt u = None \<or> (\<exists>t. tokenExpiresAt u = Some t \<and> checked_at clock < t))"
  then show "ensureValidToken E w uid clock = (Inr (accessToken u), w)"
    by (auto simp: ensureValidToken_def)
next
  fix u t
  assume "find (\<lambda>u. slack_id u = uid) (users w) = Some u
        \<and> tokenExpiresAt u = Some t \<and> t \<le> checked_at clock
        \<and> (refreshToken u = None \<or> refreshToken u = Some [])"
  then show "ensureValidToken E w uid clock =
        (Inl (Error ''Token expired and no refresh token available''), w)"
    by (auto simp: ensureValidToken_def)
next
  fix u t rt
  assume "find (\<lambda>u. slack_id u = uid) (users w) = Some u
        \<and> tokenExpiresAt u = Some t \<and> t \<le> checked_at clock
        \<and> refreshToken u = Some rt \<and> rt \<noteq> []
        \<and> oauth_v2_access E (calls w) rt = None"
  then show "ensureValidToken E w uid clock =
        (Inl (Error ''Failed to refresh access token''), w\<lparr>calls := calls w @ [OAuthRefresh rt]\<rparr>)"
    by (simp add: ensureValidToken_def refreshAccessToken_def)
next
  fix u t rt r
  assume "find (\<lambda>u. slack_id u = uid) (users w) = Some u
        \<and> tokenExpiresAt u = Some t \<and> t \<le> checked_at clock
        \<and> refreshToken u = Some rt \<and> rt \<noteq> []
        \<and> oauth_v2_access E (calls w) rt = Some r
        \<and> user_path_errors (u\<lparr>accessToken := access_token r\<rparr>) = []
        \<and> (truthy_number (expires_in r) \<longrightarrow>
             new_Date (refreshed_at clock + the (expires_in r) * 1000) \<noteq> None)"
  then show "ensureValidToken E w uid clock =
        (Inr (access_token r),
         w\<lparr>calls := calls w @ [OAuthRefresh rt],
           users := update_user
             (u\<lparr>accessToken := access_token r,
                refreshToken := (if truthy_string (refresh_token r) then refresh_token r
                                 else refreshToken u),
                tokenExpiresAt := (if truthy_number (expires_in r)
                                   then Some (refreshed_at clock + the (expires_in r) * 1000)
                                   else tokenExpiresAt u),
                user_updatedAt := user_saved_at clock\<rparr>) (users w)\<rparr>)"
    using ensureValidToken_refreshed [where uid = uid and w = w and u = u and t = t
        and clock = clock and rt = rt and E = E and r = r]
    by blast
next
  fix u t rt r
  assume "find (\<lambda>u. slack_id u = uid) (users w) = Some u
        \<and> tokenExpiresAt u = Some t \<and> t \<le> checked_at clock
        \<and> refreshToken u = Some rt \<and> rt \<noteq> []
        \<and> oauth_v2_access E (calls w) rt = Some r
        \<and> (user_path_errors (u\<lparr>accessToken := access_token r\<rparr>) \<noteq> []
           \<or> (truthy_number (expires_in r)
              \<and> new_Date (refreshed_at clock + the (expires_in r) * 1000) = None))"
  then show "\<exists>paths. ensureValidToken E w uid clock =
         (Inl (ValidationError paths), w\<lparr>calls := calls w @ [OAuthRefresh rt]\<rparr>)"
    using ensureValidToken_refresh_rejected [where uid = uid and w = w and u = u and t = t
        and clock = clock and rt = rt and E = E and r = r]
    by blast
next
  fix m :: scheduled_message and e and sc :: send_clock
  assume "token_readings sc = clock
        \<and> fst (ensureValidToken E w (userId m) clock) = Inl e"
  then show "post_count (ssm_deliver E w m sc) = post_count w"
    using ssm_deliver_no_token [of E w m sc e] by simp
qed

theorem ensureValidToken_algorithm_witness:
  "ensureValidToken slack_up no_credential ''U1'' (token_from 100) =
     (Inl (Error ''User not found''), no_credential)
 \<and> ensureValidToken slack_up one_pending ''U1'' (token_from 100) = (Inr ''xoxb-1'', one_pending)
 \<and> ensureValidToken slack_up expired_no_refresh ''U1'' (token_from 100) =
     (Inl (Error ''Token expired and no refresh token available''), expired_no_refresh)
 \<and> ensureValidToken slack_down expired_ada ''U1'' (token_from 100) =
     (Inl (Error ''Failed to refresh access token''), expired_ada\<lparr>calls := [OAuthRefresh ''r-1'']\<rparr>)
 \<and> ensureValidToken slack_rotating expired_ada ''U1'' (token_from 100) =
     (Inr ''xoxb-2'',
      \<lparr>messages = [],
       users = [ada\<lparr>accessToken := ''xoxb-2'', refreshToken := Some ''r-2'',
                   tokenExpiresAt := Some 3600101, user_updatedAt := 102\<rparr>],
       calls = [OAuthRefresh ''r-1''], next_id = 0\<rparr>)
 \<and> fst (ensureValidToken slack_forever expired_ada ''U1'' (token_from 100)) \<noteq> Inr ''xoxb-2''
 \<and> users (snd (ensureValidToken slack_forever expired_ada ''U1'' (token_from 100))) =
     users expired_ada
 \<and> post_count (ssm_deliver slack_up no_credential (memo 11 Pending 10) (send_from 99)) = 0"
proof -
  have 1: "ensureValidToken slack_up no_credential ''U1'' (token_from 100) =
     (Inl (Error ''User not found''), no_credential)"
    using ensureValidToken_algorithm [where uid = "''U1''" and w = no_credential
        and E = slack_up and clock = "token_from 100"]
    by (simp add: no_credential_def)
  have 2: "ensureValidToken slack_up one_pending ''U1'' (token_from 100) =
     (Inr ''xoxb-1'', one_pending)"
    using ensureValidToken_algorithm [where uid = "''U1''" and w = one_pending
        and E = slack_up and clock = "token_from 100"]
    by (simp add: one_pending_def ada_def)
  have 3: "ensureValidToken slack_up expired_no_refresh ''U1'' (token_from 100) =
     (Inl (Error ''Token expired and no refresh token available''), expired_no_refresh)"
    using ensureValidToken_algorithm [where uid = "''U1''" and w = expired_no_refresh
        and E = slack_up and clock = "token_from 100"]
    by (simp add: expired_no_refresh_def ada_def token_from_def)
  have 4: "ensureValidToken slack_down expired_ada ''U1'' (token_from 100) =
     (Inl (Error ''Failed to refresh access token''), expired_ada\<lparr>calls := [OAuthRefresh ''r-1'']\<rparr>)"
    using ensureValidToken_algorithm [where uid = "''U1''" and w = expired_ada
        and E = slack_down and clock = "token_from 100"]
    by (simp add: expired_ada_def ada_def slack_down_def token_from_def)
  have 5: "ensureValidToken slack_rotating expired_ada ''U1'' (token_from 100) =
     (Inr ''xoxb-2'',
      \<lparr>messages = [],
       users = [ada\<lparr>accessToken := ''xoxb-2'', refreshToken := Some ''r-2'',
                   tokenExpiresAt := Some 3600101, user_updatedAt := 102\<rparr>],
       calls = [OAuthRefresh ''r-1''], next_id = 0\<rparr>)"
    using ensureValidToken_algorithm [where uid = "''U1''" and w = expired_ada
        and E = slack_rotating and clock = "token_from 100"]
    by (simp add: expired_ada_def ada_def slack_rotating_def token_from_def
        user_path_errors_def new_Date_def)
  have "\<exists>paths. ensureValidToken slack_forever expired_ada ''U1'' (token_from 100) =
      (Inl (ValidationError paths), expired_ada\<lparr>calls := calls expired_ada @ [OAuthRefresh ''r-1'']\<rparr>)"
    using ensureValidToken_algorithm [where uid = "''U1''" and w = expired_ada
        and E = slack_forever and clock = "token_from 100"]
    by (simp add: expired_ada_def ada_def slack_forever_def token_from_def
        user_path_errors_def new_Date_def)
  then have 6: "fst (ensureValidToken slack_forever expired_ada ''U1'' (token_from 100)) \<noteq> Inr ''xoxb-2''
     \<and> users (snd (ensureValidToken slack_forever expired_ada ''U1'' (token_from 100))) =
         users expired_ada"
    by auto
  have "token_readings (send_from 99) = token_from 100
      \<and> fst (ensureValidToken slack_up no_credential (userId (memo 11 Pending 10)) (token_from 100)) =
      Inl (Error ''User not found'')"
    using 1 by (simp add: memo_def send_from_def)
  with ensureValidToken_algorithm [where w = no_credential and E = slack_up
      and clock = "token_from 100"]
  have "post_count (ssm_deliver slack_up no_credential (memo 11 Pending 10) (send_from 99)) =
      post_count no_credential"
    by blast
  then have 7: "post_count (ssm_deliver slack_up no_credential (memo 11 Pending 10) (send_from 99)) = 0"
    by (simp add: post_count_def no_credential_def)
  from 1 2 3 4 5 6 7 show ?thesis by blast
qed

text \<open>Claim C5 as the specification states it, that a successful refresh is always
  persisted and its token returned, fails on three inputs. The provider answers the
  refresh without an access token: the save of the credential throws and the stored token
  stays. The provider answers with an expiry of 8640000000000 seconds: the new \<^verbatim>\<open>Date\<close> is
  invalid and the save throws. The stored credential has no team name (the upsert of the
  OAuth callback runs no validator): the save throws.\<close>

theorem refresh_success_not_persisted:
  "ensureValidToken slack_blank expired_ada ''U1'' (token_from 100) =
     (Inl (ValidationError [''accessToken'']), expired_ada\<lparr>calls := [OAuthRefresh ''r-1'']\<rparr>)
 \<and> ensureValidToken slack_forever expired_ada ''U1'' (token_from 100) =
     (Inl (ValidationError [''tokenExpiresAt'']), expired_ada\<lparr>calls := [OAuthRefresh ''r-1'']\<rparr>)
 \<and> ensureValidToken slack_rotating expired_unnamed_team ''U1'' (token_from 100) =
     (Inl (ValidationError [''teamName'']),
      expired_unnamed_team\<lparr>calls := [OAuthRefresh ''r-1'']\<rparr>)"
  by (simp add: engine_defs demo_defs Let_def)


text \<open>
  Claim C6 (the code does not do this). The specification has status transitions monotone:
  once a record is \<^verbatim>\<open>sent\<close>, \<^verbatim>\<open>failed\<close> or \<^verbatim>\<open>cancelled\<close>, no engine operation changes its
  status again. \<^verbatim>\<open>sendScheduledMessage\<close> checks the status when it loads the record and
  saves the loaded object after the awaits of lines 79 and 82, without looking at the store
  again. A cancellation that lands in between succeeds and stores \<^verbatim>\<open>cancelled\<close>; the save
  of line 89 then writes \<^verbatim>\<open>sent\<close> over it. (When each operation runs to its end before the
  next begins the claim holds: \<open>sequential_status_monotone\<close>.)
\<close>

theorem cancelled_overwritten_by_send:
  "ssm_load one_pending (ObjectIdString 11) 100 =
     Some ((memo 11 Pending 10)\<lparr>status := Sent, sentAt := Some 100\<rparr>)
 \<and> fst (cancelScheduledMessage one_pending (ObjectIdString 11) ''U1'' 101) = Inr True
 \<and> status_of (snd (cancelScheduledMessage one_pending (ObjectIdString 11) ''U1'' 101)) 11
     = Some Cancelled
 \<and> status_of
      (ssm_deliver slack_up (snd (cancelScheduledMessage one_pending (ObjectIdString 11) ''U1'' 101))
         ((memo 11 Pending 10)\<lparr>status := Sent, sentAt := Some 100\<rparr>) (send_from 100)) 11
     = Some Sent"
  by (simp add: engine_defs cancelScheduledMessage_def demo_defs Let_def)



text \<open>
  Claim C8 (as amended). \<^verbatim>\<open>cancelScheduledMessage\<close> returns true and sets the status to
  \<^verbatim>\<open>cancelled\<close> exactly when a record with the id exists, belongs to the principal and is
  pending. For an id that is the id of no such record it returns false, and so does a
  second cancel of the same id. For a string that mongoose cannot cast to an \<^verbatim>\<open>ObjectId\<close> the
  query throws and the error is thrown again. In every case but the first the world is
  unchanged, and in the first no other record, no credential and no provider is touched.
\<close>

theorem cancel_exactly_when_pending_and_owned:
  assumes "store_ok w"
  shows "(\<forall>s. i = OtherString s \<longrightarrow>
            cancelScheduledMessage w i uid now = (Inl CastError, w))
       \<and> (\<forall>k. i = ObjectIdString k \<longrightarrow>
            (if \<exists>m \<in> set (messages w). mid m = k \<and> userId m = uid \<and> status m = Pending
             then fst (cancelScheduledMessage w i uid now) = Inr True
                \<and> status_of (snd (cancelScheduledMessage w i uid now)) k = Some Cancelled
             else cancelScheduledMessage w i uid now = (Inr False, w))
          \<and> cancelScheduledMessage (snd (cancelScheduledMessage w i uid now)) i uid now' =
              (Inr False, snd (cancelScheduledMessage w i uid now)))
       \<and> (\<forall>j. i \<noteq> ObjectIdString j \<longrightarrow>
             byId (messages (snd (cancelScheduledMessage w i uid now))) j =
             byId (messages w) j)
       \<and> users (snd (cancelScheduledMessage w i uid now)) = users w
       \<and> calls (snd (cancelScheduledMessage w i uid now)) = calls w"
proof (cases i)
  case (OtherString s)
  then show ?thesis by (simp add: cancel_uncastable)
next
  case (ObjectIdString k)
  show ?thesis
  proof (cases "find (\<lambda>m. mid m = k \<and> userId m = uid \<and> status m = Pending) (messages w)")
    case None
    then have "\<not> (\<exists>m \<in> set (messages w). mid m = k \<and> userId m = uid \<and> status m = Pending)"
      by (auto simp: find_None_iff)
    with None ObjectIdString show ?thesis
      by (simp add: cancel_not_found)
  next
    case (Some m)
    let ?w' = "snd (cancelScheduledMessage w (ObjectIdString k) uid now)"
    from find_SomeD [OF Some]
    have m: "m \<in> set (messages w)" "mid m = k" "userId m = uid" "status m = Pending"
      by auto
    then have ex: "\<exists>m \<in> set (messages w). mid m = k \<and> userId m = uid \<and> status m = Pending"
      by auto
    have i: "k \<in> set (map mid (messages w))"
      using m by force
    have st: "status_of ?w' k = Some Cancelled"
      using m i by (simp add: cancel_found [OF assms Some] status_of_def byId_update_doc)
    have ok': "store_ok ?w'"
      using assms by (rule cancel_store_ok)
    have "find (\<lambda>m. mid m = k \<and> userId m = uid \<and> status m = Pending) (messages ?w') = None"
    proof (rule ccontr)
      assume "find (\<lambda>m. mid m = k \<and> userId m = uid \<and> status m = Pending) (messages ?w') \<noteq> None"
      then obtain x where
        "find (\<lambda>m. mid m = k \<and> userId m = uid \<and> status m = Pending) (messages ?w') = Some x"
        by auto
      from find_SomeD [OF this] have "x \<in> set (messages ?w')" "mid x = k" "status x = Pending"
        by auto
      with status_of_member [OF ok', of x] st show False by simp
    qed
    then have "cancelScheduledMessage ?w' (ObjectIdString k) uid now' = (Inr False, ?w')"
      by (rule cancel_not_found)
    moreover have "\<forall>j. j \<noteq> k \<longrightarrow> byId (messages ?w') j = byId (messages w) j"
      using m by (simp add: cancel_found [OF assms Some] byId_update_doc)
    ultimately show ?thesis
      using ex st ObjectIdString by (simp add: cancel_found [OF assms Some])
  qed
qed

theorem cancel_exactly_when_pending_and_owned_witness:
  "store_ok one_pending
 \<and> fst (cancelScheduledMessage one_pending (ObjectIdString 11) ''U1'' 100) = Inr True
 \<and> status_of (snd (cancelScheduledMessage one_pending (ObjectIdString 11) ''U1'' 100)) 11
     = Some Cancelled
 \<and> cancelScheduledMessage (snd (cancelScheduledMessage one_pending (ObjectIdString 11) ''U1'' 100))
      (ObjectIdString 11) ''U1'' 101 =
     (Inr False, snd (cancelScheduledMessage one_pending (ObjectIdString 11) ''U1'' 100))
 \<and> cancelScheduledMessage one_pending (ObjectIdString 11) ''U2'' 100 = (Inr False, one_pending)
 \<and> cancelScheduledMessage one_pending (ObjectIdString 19) ''U1'' 100 = (Inr False, one_pending)
 \<and> cancelScheduledMessage one_pending (OtherString ''not-an-object-id'') ''U1'' 100 =
     (Inl CastError, one_pending)"
proof -
  have ok: "store_ok one_pending"
    by (simp add: store_ok_def demo_defs validate_message_def message_path_errors_def)
  have own: "\<exists>m \<in> set (messages one_pending). mid m = 11 \<and> userId m = ''U1'' \<and> status m = Pending"
    by (simp add: demo_defs)
  have other: "\<not> (\<exists>m \<in> set (messages one_pending). mid m = 11 \<and> userId m = ''U2'' \<and> status m = Pending)"
    by (simp add: demo_defs)
  have unknown: "\<not> (\<exists>m \<in> set (messages one_pending). mid m = 19 \<and> userId m = ''U1'' \<and> status m = Pending)"
    by (simp add: demo_defs)
  from cancel_exactly_when_pending_and_owned [OF ok, of "ObjectIdString 11" "''U1''" 100 101] own
  have a: "fst (cancelScheduledMessage one_pending (ObjectIdString 11) ''U1'' 100) = Inr True
     \<and> status_of (snd (cancelScheduledMessage one_pending (ObjectIdString 11) ''U1'' 100)) 11
         = Some Cancelled
     \<and> cancelScheduledMessage (snd (cancelScheduledMessage one_pending (ObjectIdString 11) ''U1'' 100))
          (ObjectIdString 11) ''U1'' 101 =
         (Inr False, snd (cancelScheduledMessage one_pending (ObjectIdString 11) ''U1'' 100))"
    by simp
  from cancel_exactly_when_pending_and_owned [OF ok, of "ObjectIdString 11" "''U2''" 100 101] other
  have b: "cancelScheduledMessage one_pending (ObjectIdString 11) ''U2'' 100 = (Inr False, one_pending)"
    by simp
  from cancel_exactly_when_pending_and_owned [OF ok, of "ObjectIdString 19" "''U1''" 100 101] unknown
  have c: "cancelScheduledMessage one_pending (ObjectIdString 19) ''U1'' 100 = (Inr False, one_pending)"
    by simp
  from cancel_exactly_when_pending_and_owned [OF ok, of "OtherString ''not-an-object-id''" "''U1''" 100 101]
  have d: "cancelScheduledMessage one_pending (OtherString ''not-an-object-id'') ''U1'' 100 =
     (Inl CastError, one_pending)"
    by simp
  from ok a b c d show ?thesis by blast
qed

text \<open>Claim C8 as the specification states it, that an unknown id makes the call return
  false, fails for the id \<^verbatim>\<open>not-an-object-id\<close>, which the route hands over as it came in
  the URL: no record has it, and the call throws.\<close>

theorem cancel_uncastable_id_throws:
  "map view_id (getUserScheduledMessages one_pending ''U1'') = [ObjectIdString 11]
 \<and> cancelScheduledMessage one_pending (OtherString ''not-an-object-id'') ''U1'' 100 =
     (Inl CastError, one_pending)"
  by (simp add: cancelScheduledMessage_def getUserScheduledMessages_def to_view_def demo_defs)

text \<open>
  Claim C9. \<^verbatim>\<open>scheduleMessage\<close> with a due time at or before the current time fails with
  the error "Scheduled time must be in the future" and persists no record: the world is
  unchanged. With a due time strictly in the future it inserts a new record with status
  \<^verbatim>\<open>pending\<close> and returns its id, which no other record has. The fields are those that
  intake accepts (user, team, channel, channel name and body non-empty, body of at most
  4000 characters): the specification has intake reject any other input, and so does the
  schema, in which case too nothing is persisted. That the id is new follows from the
  invariant of the driver (\<open>ids_issued\<close>), which every operation keeps.
\<close>

theorem schedule_validates_then_inserts:
  assumes "ids_issued w"
  shows "(\<forall>t. sfor = Instant t \<and> t \<le> guard_at clock \<longrightarrow>
      scheduleMessage w clock uid tid cid cname msg sfor =
        (Inl (Error ''Scheduled time must be in the future''), w))
 \<and> (\<forall>t. sfor = Instant t \<and> guard_at clock < t
        \<and> uid \<noteq> [] \<and> tid \<noteq> [] \<and> cid \<noteq> [] \<and> cname \<noteq> [] \<and> msg \<noteq> [] \<and> length msg \<le> 4000 \<longrightarrow>
      scheduleMessage w clock uid tid cid cname msg sfor =
        (Inr (ObjectIdString (next_id w)),
         w\<lparr>next_id := Suc (next_id w),
           messages := messages w @
             [(newScheduledMessage (next_id w) (created_at clock) uid tid cid cname msg t)
                \<lparr>updatedAt := inserted_at clock\<rparr>]\<rparr>)
      \<and> status_of (snd (scheduleMessage w clock uid tid cid cname msg sfor)) (next_id w)
          = Some Pending
      \<and> byId (messages w) (next_id w) = None
      \<and> length (filter (\<lambda>m. mid m = next_id w)
           (messages (snd (scheduleMessage w clock uid tid cid cname msg sfor)))) = 1)
 \<and> (\<forall>e. fst (scheduleMessage w clock uid tid cid cname msg sfor) = Inl e \<longrightarrow>
        messages (snd (scheduleMessage w clock uid tid cid cname msg sfor)) = messages w)"
proof (intro conjI allI impI)
  fix t
  assume "sfor = Instant t \<and> t \<le> guard_at clock"
  then show "scheduleMessage w clock uid tid cid cname msg sfor =
        (Inl (Error ''Scheduled time must be in the future''), w)"
    by (simp add: scheduleMessage_def)
next
  fix t
  assume a: "sfor = Instant t \<and> guard_at clock < t
        \<and> uid \<noteq> [] \<and> tid \<noteq> [] \<and> cid \<noteq> [] \<and> cname \<noteq> [] \<and> msg \<noteq> [] \<and> length msg \<le> 4000"
  let ?d = "newScheduledMessage (next_id w) (created_at clock) uid tid cid cname msg t"
  let ?w0 = "w\<lparr>next_id := Suc (next_id w)\<rparr>"
  from a have v: "message_path_errors uid tid cid cname msg = []"
    by (simp add: message_path_errors_def)
  from assms have fresh: "next_id w \<notin> set (map mid (messages w))"
    by (auto simp: ids_issued_def list_all_iff)
  from v fresh have s: "save_new_message ?w0 ?d (inserted_at clock) =
      Inr (?w0\<lparr>messages := messages w @ [?d\<lparr>updatedAt := inserted_at clock\<rparr>]\<rparr>)"
    by (simp add: save_new_message_def Let_def)
  with a show eq: "scheduleMessage w clock uid tid cid cname msg sfor =
        (Inr (ObjectIdString (next_id w)),
         w\<lparr>next_id := Suc (next_id w),
           messages := messages w @ [?d\<lparr>updatedAt := inserted_at clock\<rparr>]\<rparr>)"
    by (simp add: scheduleMessage_def Let_def)
  from fresh show none: "byId (messages w) (next_id w) = None"
    by (simp add: byId_None_iff)
  with eq show "status_of (snd (scheduleMessage w clock uid tid cid cname msg sfor)) (next_id w)
      = Some Pending"
    by (simp add: status_of_def byId_append)
  from fresh have "filter (\<lambda>m. mid m = next_id w) (messages w) = []"
    by (force simp: filter_empty_conv)
  with eq show "length (filter (\<lambda>m. mid m = next_id w)
           (messages (snd (scheduleMessage w clock uid tid cid cname msg sfor)))) = 1"
    by simp
next
  fix e
  assume "fst (scheduleMessage w clock uid tid cid cname msg sfor) = Inl e"
  with schedule_cases [of w clock uid tid cid cname msg sfor]
  show "messages (snd (scheduleMessage w clock uid tid cid cname msg sfor)) = messages w"
    by auto
qed

theorem schedule_validates_then_inserts_witness:
  "ids_issued one_pending
 \<and> scheduleMessage one_pending (schedule_from 1000) ''U1'' ''T1'' ''C123'' ''general'' ''hello''
      (Instant 0) =
     (Inl (Error ''Scheduled time must be in the future''), one_pending)
 \<and> scheduleMessage one_pending (schedule_from 0) ''U1'' ''T1'' ''C123'' ''general'' ''hello''
      (Instant 3600000) =
     (Inr (ObjectIdString 12),
      one_pending\<lparr>next_id := 13, messages := messages one_pending @
        [(newScheduledMessage 12 1 ''U1'' ''T1'' ''C123'' ''general'' ''hello'' 3600000)
           \<lparr>updatedAt := 2\<rparr>]\<rparr>)
 \<and> status_of
      (snd (scheduleMessage one_pending (schedule_from 0) ''U1'' ''T1'' ''C123'' ''general''
         ''hello'' (Instant 3600000))) 12 = Some Pending
 \<and> messages (snd (scheduleMessage one_pending (schedule_from 0) ''U1'' ''T1'' ''C123''
      ''general'' (replicate 4001 CHR ''x'') (Instant 3600000))) = messages one_pending"
proof -
  have issued: "ids_issued one_pending"
    by (simp add: ids_issued_def demo_defs)
  note T = schedule_validates_then_inserts [OF issued]
  have a: "scheduleMessage one_pending (schedule_from 1000) ''U1'' ''T1'' ''C123'' ''general''
      ''hello'' (Instant 0) = (Inl (Error ''Scheduled time must be in the future''), one_pending)"
    using T [of "Instant 0" "schedule_from 1000" "''U1''" "''T1''" "''C123''" "''general''"
        "''hello''"]
    by (simp add: schedule_from_def)
  have "Instant 3600000 = Instant 3600000 \<and> guard_at (schedule_from 0) < 3600000
      \<and> ''U1'' \<noteq> [] \<and> ''T1'' \<noteq> [] \<and> ''C123'' \<noteq> [] \<and> ''general'' \<noteq> [] \<and> ''hello'' \<noteq> []
      \<and> length ''hello'' \<le> 4000"
    by (simp add: schedule_from_def)
  with T [of "Instant 3600000" "schedule_from 0" "''U1''" "''T1''" "''C123''" "''general''"
      "''hello''"]
  have b: "scheduleMessage one_pending (schedule_from 0) ''U1'' ''T1'' ''C123'' ''general'' ''hello''
      (Instant 3600000) =
     (Inr (ObjectIdString (next_id one_pending)),
      one_pending\<lparr>next_id := Suc (next_id one_pending), messages := messages one_pending @
        [(newScheduledMessage (next_id one_pending) (created_at (schedule_from 0)) ''U1'' ''T1''
            ''C123'' ''general'' ''hello'' 3600000)
           \<lparr>updatedAt := inserted_at (schedule_from 0)\<rparr>]\<rparr>)
   \<and> status_of
      (snd (scheduleMessage one_pending (schedule_from 0) ''U1'' ''T1'' ''C123'' ''general''
         ''hello'' (Instant 3600000))) (next_id one_pending) = Some Pending"
    by blast
  have n: "next_id one_pending = 12" "created_at (schedule_from 0) = 1"
    "inserted_at (schedule_from 0) = 2" "Suc 12 = 13"
    by (simp_all add: one_pending_def schedule_from_def)
  note b' = b [unfolded n]
  have "fst (scheduleMessage one_pending (schedule_from 0) ''U1'' ''T1'' ''C123''
      ''general'' (replicate 4001 CHR ''x'') (Instant 3600000)) = Inl (ValidationError [''message''])"
    by (simp add: scheduleMessage_def save_new_message_def validate_message_def
        message_path_errors_def newScheduledMessage_def schedule_from_def Let_def)
  with T [of "Instant 3600000" "schedule_from 0" "''U1''" "''T1''" "''C123''" "''general''"
      "replicate 4001 CHR ''x''"]
  have c: "messages (snd (scheduleMessage one_pending (schedule_from 0) ''U1'' ''T1'' ''C123''
      ''general'' (replicate 4001 CHR ''x'') (Instant 3600000))) = messages one_pending"
    by blast
  from issued a b' c show ?thesis
    by blast
qed

text \<open>
  Claim C10. \<^verbatim>\<open>getUserScheduledMessages\<close> returns the principal's records that are pending,
  sent or failed, and only those: a cancelled record stays in the store and is never in the
  listing, so the statistics, which are computed from the listing, count no cancelled
  record.
\<close>

theorem listing_excludes_cancelled:
  "set (getUserScheduledMessages w uid) =
     to_view ` {m \<in> set (messages w). userId m = uid \<and> status m \<noteq> Cancelled}
 \<and> (\<forall>v \<in> set (getUserScheduledMessages w uid). view_status v \<noteq> Cancelled)
 \<and> cancelled (messages_stats w uid) = 0"
proof -
  have a: "set (getUserScheduledMessages w uid) =
     to_view ` {m \<in> set (messages w). userId m = uid \<and> status m \<noteq> Cancelled}"
  proof -
    have "\<And>s. (s = Pending \<or> s = Sent \<or> s = Failed) = (s \<noteq> Cancelled)"
      by (case_tac s) simp_all
    then show ?thesis
      by (simp add: getUserScheduledMessages_def)
  qed
  then have b: "\<forall>v \<in> set (getUserScheduledMessages w uid). view_status v \<noteq> Cancelled"
    by (auto simp: to_view_def)
  then have "filter (\<lambda>msg. view_status msg = Cancelled) (getUserScheduledMessages w uid) = []"
    by (simp add: filter_empty_conv)
  then have "cancelled (messages_stats w uid) = 0"
    by (simp add: messages_stats_def Let_def)
  with a b show ?thesis by simp
qed

theorem listing_excludes_cancelled_witness:
  "memo 17 Cancelled 70 \<in> set (messages seven_records)
 \<and> to_view (memo 17 Cancelled 70) \<notin> set (getUserScheduledMessages seven_records ''U1'')
 \<and> to_view (memo 14 Sent 40) \<in> set (getUserScheduledMessages seven_records ''U1'')
 \<and> cancelled (messages_stats seven_records ''U1'') = 0"
proof -
  note L = listing_excludes_cancelled [of seven_records "''U1''"]
  have a: "memo 17 Cancelled 70 \<in> set (messages seven_records)"
    by (simp add: seven_records_def)
  have "view_status (to_view (memo 17 Cancelled 70)) = Cancelled"
    by (simp add: to_view_def memo_def)
  with L have b: "to_view (memo 17 Cancelled 70) \<notin> set (getUserScheduledMessages seven_records ''U1'')"
    by blast
  have "memo 14 Sent 40 \<in> {m \<in> set (messages seven_records). userId m = ''U1'' \<and> status m \<noteq> Cancelled}"
    by (simp add: seven_records_def memo_def)
  with L have c: "to_view (memo 14 Sent 40) \<in> set (getUserScheduledMessages seven_records ''U1'')"
    by blast
  from L a b c show ?thesis by blast
qed

end
